theory Spec2Isabelle
  imports Main
begin

section \<open>The ads-fetcher service: \<open>app.js\<close>\<close>

text \<open>
  The service is one Express application with two routes. \<open>GET /health\<close> answers
  \<open>200 "ok"\<close>. \<open>POST /run\<close> checks the \<open>Authorization\<close> header, verifies the bearer
  token against the configured audiences, reads every document of the Firestore collection
  \<open>brands\<close> and writes, for each of them, one document of the collection \<open>ads\<close> with
  merge semantics.

  Everything outside the process is a parameter of the model (\<open>env\<close>): the outcome of
  Google's token verification, the failure of a Firestore call, the clock. The handler
  of the route (\<open>run\<close>) becomes a function from the request's header and the store to the
  response, the list of external calls it issued (in issue order) and the store
  afterwards. The route as a client meets it (\<open>post_run\<close>) is that handler behind the
  middleware of line 7, \<open>express.json()\<close>, which answers by itself a request whose body
  it rejects.
\<close>

subsection \<open>Firestore values, documents, the store\<close>

text \<open>
  A field value of a document. Numbers are kept as integers, with \<open>NaN\<close> apart (the
  handler only asks whether a value is truthy); arrays, maps, timestamps and references
  are objects, kept opaque.
\<close>

datatype fs_value =
    Null
  | Bool bool
  | Num int
  | NaN
  | Str string
  | Obj string

type_synonym doc = "string \<rightharpoonup> fs_value"

text \<open>
  The collection \<open>brands\<close> is held as the list of its documents (id and data) in the
  order in which \<open>firestore.collection('brands').get()\<close> returns them; the collection
  \<open>ads\<close> is a map from document id to document.
\<close>

record store =
  brands :: "(string \<times> doc) list"
  ads :: "string \<rightharpoonup> doc"

subsection \<open>The environment\<close>

text \<open>
  \<^item> \<open>EXPECT_AUDIENCES\<close>: the constant of line 9, after splitting, trimming and filtering.
  \<^item> \<open>oauth_verify token aud\<close>: the result of
    \<open>oauth2Client.verifyIdToken({idToken: token, audience: aud})\<close>: the ticket's payload
    when the call resolves, \<open>None\<close> when it throws.
  \<^item> \<open>brands_get_error\<close>: the message of the error with which
    \<open>firestore.collection('brands').get()\<close> rejects, if it does.
  \<^item> \<open>set_rejects k\<close>: when the write of the document \<open>k\<close> of \<open>ads\<close> rejects, the
    moment at which it does and the error's message; \<open>None\<close> when the write succeeds.
  \<^item> \<open>now\<close>: \<open>new Date().toISOString()\<close>.
\<close>

type_synonym payload = string

record env =
  EXPECT_AUDIENCES :: "string list"
  oauth_verify :: "string \<Rightarrow> string \<Rightarrow> payload option"
  brands_get_error :: "string option"
  set_rejects :: "string \<Rightarrow> (nat \<times> string) option"
  now :: string

text \<open>The external calls the service can issue.\<close>

datatype call =
    VerifyIdToken string string
  | BrandsGet
  | AdSet string doc

subsection \<open>\<open>verifyIdToken\<close> (lines 16 to 27)\<close>

text \<open>
  The loop over the audiences: the first audience for which Google's verification resolves
  ends the loop with the payload; a verification that throws is swallowed and the next
  audience is tried. The result carries the calls made.
\<close>

fun try_audiences :: "env \<Rightarrow> string \<Rightarrow> string list \<Rightarrow> call list \<times> payload option" where
  "try_audiences e token [] = ([], None)"
| "try_audiences e token (aud # auds) =
     (case oauth_verify e token aud of
        Some p \<Rightarrow> ([VerifyIdToken token aud], Some p)
      | None \<Rightarrow>
          (case try_audiences e token auds of
             (cs, r) \<Rightarrow> (VerifyIdToken token aud # cs, r)))"

text \<open>A thrown \<open>Error(m)\<close> is \<open>Inl m\<close>. The empty string is the falsy token.\<close>

definition verifyIdToken :: "env \<Rightarrow> string \<Rightarrow> call list \<times> (string + payload)" where
  "verifyIdToken e token =
     (if token = [] then ([], Inl ''no-token'')
      else
        (case try_audiences e token (EXPECT_AUDIENCES e) of
           (cs, Some p) \<Rightarrow> (cs, Inr p)
         | (cs, None) \<Rightarrow> (cs, Inl ''invalid-token'')))"

subsection \<open>The \<open>Authorization\<close> header (lines 33 to 37)\<close>

text \<open>
  A header value is a string of 8-bit characters. In the regular expression
  \<open>/^Bearer (.+)$/\<close> the dot matches every character but a line terminator, and without
  the \<open>m\<close> flag \<open>^\<close> and \<open>$\<close> are the two ends of the string: the header matches when
  it is \<open>Bearer\<close>, one space, and a non-empty rest without line terminator; the capture is
  that rest.
\<close>

definition line_terminator :: "char \<Rightarrow> bool" where
  "line_terminator c = (c = CHR 0x0A \<or> c = CHR 0x0D)"

definition bearer_match :: "string \<Rightarrow> string option" where
  "bearer_match authHeader =
     (if take 7 authHeader = ''Bearer '' \<and> drop 7 authHeader \<noteq> []
         \<and> \<not> list_ex line_terminator (drop 7 authHeader)
      then Some (drop 7 authHeader) else None)"

subsection \<open>Responses\<close>

datatype json = JStr string | JNum nat

record response =
  status :: nat
  body :: "(string \<times> json) list"

text \<open>The \<open>catch\<close> block of the handler (lines 63 to 69), on the thrown error's message.\<close>

definition catch_block :: "string \<Rightarrow> response" where
  "catch_block message =
     (if message = ''no-token'' \<or> message = ''invalid-token''
      then \<lparr>status = 401, body = [(''error'', JStr message)]\<rparr>
      else \<lparr>status = 500, body = [(''error'', JStr message)]\<rparr>)"

subsection \<open>The writes (lines 45 to 61)\<close>

text \<open>JavaScript's truthiness, and \<open>brand.name || null\<close>.\<close>

fun truthy :: "fs_value \<Rightarrow> bool" where
  "truthy Null = False"
| "truthy (Bool b) = b"
| "truthy (Num n) = (n \<noteq> 0)"
| "truthy NaN = False"
| "truthy (Str s) = (s \<noteq> [])"
| "truthy (Obj x) = True"

definition name_or_null :: "doc \<Rightarrow> fs_value" where
  "name_or_null brand =
     (case brand ''name'' of
        None \<Rightarrow> Null
      | Some v \<Rightarrow> if truthy v then v else Null)"

definition ad_doc_id :: "string \<Rightarrow> string" where
  "ad_doc_id brandId = ''ad_'' @ brandId"

definition adPayload :: "string \<Rightarrow> string \<Rightarrow> doc \<Rightarrow> doc" where
  "adPayload t brandId brand =
     [''brandId'' \<mapsto> Str brandId,
      ''brandName'' \<mapsto> name_or_null brand,
      ''fetchedAt'' \<mapsto> Str t,
      ''source'' \<mapsto> Str ''ads-fetcher-service'']"

text \<open>The array \<open>ops\<close>: one write per brand document, as document id and payload.\<close>

definition ops :: "env \<Rightarrow> store \<Rightarrow> (string \<times> doc) list" where
  "ops e s = map (\<lambda>(brandId, brand). (ad_doc_id brandId, adPayload (now e) brandId brand)) (brands s)"

text \<open>
  \<open>set(payload, {merge: true})\<close>: the payload's fields replace those of the document,
  its other fields stay; a missing document is created with the payload.
\<close>

definition set_merge :: "(string \<rightharpoonup> doc) \<Rightarrow> string \<Rightarrow> doc \<Rightarrow> (string \<rightharpoonup> doc)" where
  "set_merge coll k p = coll(k \<mapsto> (case coll k of None \<Rightarrow> p | Some d \<Rightarrow> d ++ p))"

text \<open>
  Every write is issued inside the loop, before anything is awaited, so each of them
  takes effect unless it rejects; a rejected write leaves its document as it was.
\<close>

fun apply_sets :: "env \<Rightarrow> (string \<times> doc) list \<Rightarrow> (string \<rightharpoonup> doc) \<Rightarrow> (string \<rightharpoonup> doc)" where
  "apply_sets e [] coll = coll"
| "apply_sets e ((k, p) # ws) coll =
     apply_sets e ws (if set_rejects e k = None then set_merge coll k p else coll)"

text \<open>
  \<open>Promise.all\<close> rejects with the reason of the promise that rejects first in time
  (the earlier in the array when two moments are equal), and resolves when none rejects.
\<close>

fun rejections :: "env \<Rightarrow> (string \<times> doc) list \<Rightarrow> (nat \<times> string) list" where
  "rejections e [] = []"
| "rejections e ((k, p) # ws) =
     (case set_rejects e k of
        None \<Rightarrow> rejections e ws
      | Some r \<Rightarrow> r # rejections e ws)"

fun earliest :: "nat \<times> string \<Rightarrow> (nat \<times> string) list \<Rightarrow> nat \<times> string" where
  "earliest r [] = r"
| "earliest r (x # xs) = earliest (if fst x < fst r then x else r) xs"

definition promise_all :: "env \<Rightarrow> (string \<times> doc) list \<Rightarrow> string option" where
  "promise_all e ws =
     (case rejections e ws of
        [] \<Rightarrow> None
      | r # rs \<Rightarrow> Some (snd (earliest r rs)))"

subsection \<open>The handler of \<open>POST /run\<close> (lines 31 to 70)\<close>

text \<open>
  The callback of the route, as it runs once the request has reached it.
  \<open>authorization\<close> is the request's header, \<open>None\<close> when the request has none
  (\<open>req.get\<close> is then undefined and \<open>|| ''\<close> makes it the empty string).
  The result is the response, the external calls in issue order, and the store afterwards.
\<close>

definition run :: "env \<Rightarrow> string option \<Rightarrow> store \<Rightarrow> response \<times> call list \<times> store" where
  "run e authorization s =
     (let authHeader = (case authorization of None \<Rightarrow> [] | Some h \<Rightarrow> h) in
      case bearer_match authHeader of
        None \<Rightarrow> (\<lparr>status = 401, body = [(''error'', JStr ''missing-token'')]\<rparr>, [], s)
      | Some idToken \<Rightarrow>
          (case verifyIdToken e idToken of
             (cs, Inl message) \<Rightarrow> (catch_block message, cs, s)
           | (cs, Inr p) \<Rightarrow>
               (case brands_get_error e of
                  Some message \<Rightarrow> (catch_block message, cs @ [BrandsGet], s)
                | None \<Rightarrow>
                    (let ws = ops e s;
                         s' = s\<lparr>ads := apply_sets e ws (ads s)\<rparr>;
                         cs' = cs @ [BrandsGet] @ map (\<lambda>(k, p). AdSet k p) ws
                     in case promise_all e ws of
                          Some message \<Rightarrow> (catch_block message, cs', s')
                        | None \<Rightarrow>
                            (\<lparr>status = 200,
                              body = [(''status'', JStr ''ok''), (''processed'', JNum (length ws))]\<rparr>,
                             cs', s')))))"

text \<open>The three components of the handler's result.\<close>

definition run_response :: "env \<Rightarrow> string option \<Rightarrow> store \<Rightarrow> response" where
  "run_response e authorization s = fst (run e authorization s)"

definition run_calls :: "env \<Rightarrow> string option \<Rightarrow> store \<Rightarrow> call list" where
  "run_calls e authorization s = fst (snd (run e authorization s))"

definition run_store :: "env \<Rightarrow> string option \<Rightarrow> store \<Rightarrow> store" where
  "run_store e authorization s = snd (snd (run e authorization s))"

subsection \<open>The route behind \<open>express.json()\<close> (line 7)\<close>

text \<open>
  \<open>app.use(express.json())\<close> is installed before the route, so every request passes
  through the JSON body parser first. With its default options the parser raises an
  error, instead of calling the handler, on a JSON body that does not parse (status 400),
  on a body above the size limit (413) and on a charset or content encoding it does not
  support (415). Express's default error handler then answers with that status and an
  error page that is not JSON; the handler of the route never runs. Every other request
  (a body that parses, no body, another content type) goes on to the handler.
  What the parser makes of the body is a parameter of the request.
\<close>

datatype body_error = EntityParseFailed | EntityTooLarge | UnsupportedCharset

fun parser_status :: "body_error \<Rightarrow> nat" where
  "parser_status EntityParseFailed = 400"
| "parser_status EntityTooLarge = 413"
| "parser_status UnsupportedCharset = 415"

datatype body_outcome = BodyParsed | BodyRejected body_error

record request =
  authorization_header :: "string option"
  json_body :: body_outcome

text \<open>
  What the client receives: a JSON response of the handler, or the error page of the
  default error handler with its status.
\<close>

datatype http_response = Json response | ErrorPage nat

fun http_status :: "http_response \<Rightarrow> nat" where
  "http_status (Json r) = status r"
| "http_status (ErrorPage code) = code"

text \<open>
  The two messages \<open>no-token\<close> and \<open>invalid-token\<close> are created by the program itself,
  at lines 17 and 26, for the token; the Firestore client has no error with either
  message. The environments in which the service runs are those in which no call of the
  store fails with one of them.
\<close>

definition client_messages :: "env \<Rightarrow> bool" where
  "client_messages e \<longleftrightarrow>
     (\<forall>m. brands_get_error e = Some m \<longrightarrow> m \<noteq> ''no-token'' \<and> m \<noteq> ''invalid-token'')
     \<and> (\<forall>k t m. set_rejects e k = Some (t, m) \<longrightarrow> m \<noteq> ''no-token'' \<and> m \<noteq> ''invalid-token'')"

typedef firestore_env = "{e. client_messages e}"
  morphisms env_of Firestore_env
  by (rule exI [of _ "\<lparr>EXPECT_AUDIENCES = [], oauth_verify = (\<lambda>token aud. None),
        brands_get_error = None, set_rejects = (\<lambda>k. None), now = []\<rparr>"])
     (simp add: client_messages_def)

text \<open>
  \<open>POST /run\<close>: the body parser first, then the handler. A request the parser
  rejects issues no call and leaves the store as it was.
\<close>

definition post_run :: "firestore_env \<Rightarrow> request \<Rightarrow> store \<Rightarrow> http_response \<times> call list \<times> store" where
  "post_run E req s =
     (case json_body req of
        BodyRejected err \<Rightarrow> (ErrorPage (parser_status err), [], s)
      | BodyParsed \<Rightarrow>
          (case run (env_of E) (authorization_header req) s of
             (r, cs, s') \<Rightarrow> (Json r, cs, s')))"

definition post_run_response :: "firestore_env \<Rightarrow> request \<Rightarrow> store \<Rightarrow> http_response" where
  "post_run_response E req s = fst (post_run E req s)"

definition post_run_calls :: "firestore_env \<Rightarrow> request \<Rightarrow> store \<Rightarrow> call list" where
  "post_run_calls E req s = fst (snd (post_run E req s))"

definition post_run_store :: "firestore_env \<Rightarrow> request \<Rightarrow> store \<Rightarrow> store" where
  "post_run_store E req s = snd (snd (post_run E req s))"

section \<open>The Pagination Fetcher\<close>

text \<open>
  The repository's README places the fetching of ads (RapidAPI, pagination, the cutoff) in
  \<open>python_app/app.py\<close>, a file that is not part of the sources; \<open>app.js\<close> has no
  pagination. The definitions of this section follow sections 3, 4.2 and 4.4 of the
  specification.
\<close>

text \<open>
  Modelled from the spec: the record \<open>Ad\<close> of the data model,
  \<open>{ id, brandId, createdTime, payload }\<close>, which no source file declares.
  Timestamps are integers.
\<close>

record ad =
  adId :: string
  adBrandId :: string
  createdTime :: int
  adData :: string

text \<open>
  Modelled from the spec: the result of the Ads API Client,
  \<open>fetchPage(pageId, since, pageToken?) -> { ads, nextPageToken? }\<close>; the client is
  absent from the sources.
\<close>

record page =
  page_ads :: "ad list"
  nextPageToken :: "string option"

text \<open>
  Modelled from the spec: the two errors of the Ads API Client (absent from the sources),
  \<open>ApiError{status, body}\<close> on a non-success response and \<open>RateLimitError\<close> on
  throttling.
\<close>

datatype api_error = ApiError nat string | RateLimitError

text \<open>
  Modelled from the spec: the Ads API Client itself, absent from the sources, is a
  parameter: \<open>api pageId since pageToken attempt\<close> is the outcome of the round trip,
  which may differ from one attempt to the next.
\<close>

type_synonym ads_api = "string \<Rightarrow> int \<Rightarrow> string option \<Rightarrow> nat \<Rightarrow> api_error + page"

text \<open>
  Modelled from the spec: the error policy of the Pagination Fetcher (absent from the
  sources), "a single page-fetch failure is retried a bounded number of times; after
  exhausting retries, the error propagates to the caller". \<open>retries\<close> is the number of
  retries left.
\<close>

fun fetch_with_retry :: "(nat \<Rightarrow> api_error + page) \<Rightarrow> nat \<Rightarrow> nat \<Rightarrow> api_error + page" where
  "fetch_with_retry attempt_fn attempt 0 = attempt_fn attempt"
| "fetch_with_retry attempt_fn attempt (Suc retries) =
     (case attempt_fn attempt of
        Inr p \<Rightarrow> Inr p
      | Inl err \<Rightarrow> fetch_with_retry attempt_fn (Suc attempt) retries)"

text \<open>
  Modelled from the spec: the loop of the Pagination Fetcher (absent from the sources).
  It "calls the Ads API Client for successive pages, accumulating ads whose
  \<open>createdTime >= cutoff\<close>", and stops "as soon as a fetched page contains an ad older
  than \<open>cutoff\<close>", "when the API reports no further page token", and "after a hard maximum
  page count", returning then what was gathered. A page whose fetch fails after its
  retries makes the whole call fail, and what was gathered is dropped.
  \<open>pages_left\<close> is what remains of the maximum page count; next to the ads gathered the
  function returns the pages it fetched, in order.
\<close>

fun paginate ::
  "ads_api \<Rightarrow> nat \<Rightarrow> string \<Rightarrow> int \<Rightarrow> nat \<Rightarrow> string option \<Rightarrow> ad list \<Rightarrow> page list
   \<Rightarrow> api_error + (ad list \<times> page list)" where
  "paginate api retries pageId cutoff 0 pageToken gathered fetched = Inr (gathered, fetched)"
| "paginate api retries pageId cutoff (Suc pages_left) pageToken gathered fetched =
     (case fetch_with_retry (api pageId cutoff pageToken) 0 retries of
        Inl err \<Rightarrow> Inl err
      | Inr p \<Rightarrow>
          (let gathered' = gathered @ filter (\<lambda>a. cutoff \<le> createdTime a) (page_ads p);
               fetched' = fetched @ [p]
           in if list_ex (\<lambda>a. createdTime a < cutoff) (page_ads p) then Inr (gathered', fetched')
              else
                (case nextPageToken p of
                   None \<Rightarrow> Inr (gathered', fetched')
                 | Some next_token \<Rightarrow>
                     paginate api retries pageId cutoff pages_left (Some next_token)
                       gathered' fetched')))"

text \<open>
  Modelled from the spec: a call of the Pagination Fetcher (absent from the sources),
  with the pages it fetched: "each call re-starts pagination from page 1". The maximum
  page count and the number of retries are configuration.
\<close>

definition fetchNewAds_pages ::
  "ads_api \<Rightarrow> nat \<Rightarrow> nat \<Rightarrow> string \<Rightarrow> int \<Rightarrow> api_error + (ad list \<times> page list)" where
  "fetchNewAds_pages api retries max_pages pageId cutoff =
     paginate api retries pageId cutoff max_pages None [] []"

text \<open>
  Modelled from the spec: the contract of the Pagination Fetcher (absent from the
  sources), \<open>fetchNewAds(pageId, cutoff) -> ordered sequence of Ad\<close>.
\<close>

definition fetchNewAds :: "ads_api \<Rightarrow> nat \<Rightarrow> nat \<Rightarrow> string \<Rightarrow> int \<Rightarrow> api_error + ad list" where
  "fetchNewAds api retries max_pages pageId cutoff =
     (case fetchNewAds_pages api retries max_pages pageId cutoff of
        Inl err \<Rightarrow> Inl err
      | Inr (gathered, fetched) \<Rightarrow> Inr gathered)"

section \<open>The watermark\<close>

text \<open>
  The specification's watermark of a brand is the field \<open>lastFetchedAt\<close> of its
  document in \<open>brands\<close>.
\<close>

definition lastFetchedAt :: "store \<Rightarrow> string \<Rightarrow> fs_value option" where
  "lastFetchedAt s brandId =
     (case map_of (brands s) brandId of
        None \<Rightarrow> None
      | Some brand \<Rightarrow> brand ''lastFetchedAt'')"

text \<open>A field of a document of \<open>ads\<close>; a missing document has no field.\<close>

definition ad_field :: "store \<Rightarrow> string \<Rightarrow> string \<Rightarrow> fs_value option" where
  "ad_field s k f = (case ads s k of None \<Rightarrow> None | Some d \<Rightarrow> d f)"

section \<open>Sample data\<close>

text \<open>
  Two audiences, of which the second accepts the token \<open>tok\<close>; two brands, of which
  the first has a name and a watermark; one ad document written by an earlier run, with a
  field of its own.
\<close>

definition sample_env :: env where
  "sample_env =
     \<lparr>EXPECT_AUDIENCES = [''https://a.run.app'', ''https://b.run.app''],
      oauth_verify = (\<lambda>token aud.
        if token = ''tok'' \<and> aud = ''https://b.run.app'' then Some ''invoker'' else None),
      brands_get_error = None,
      set_rejects = (\<lambda>k. None),
      now = ''2024-02-01T00:00:00.000Z''\<rparr>"

definition sample_store :: store where
  "sample_store =
     \<lparr>brands =
        [(''b1'', [''name'' \<mapsto> Str ''Acme'', ''lastFetchedAt'' \<mapsto> Str ''2024-01-01T00:00:00.000Z'']),
         (''b2'', [''page_id'' \<mapsto> Str ''444025482768886''])],
      ads = [''ad_b1'' \<mapsto> [''views'' \<mapsto> Num 7, ''fetchedAt'' \<mapsto> Str ''2024-01-01T00:00:00.000Z'']]\<rparr>"

text \<open>The same environment, in which the write of the second brand's document fails.\<close>

definition failing_write_env :: env where
  "failing_write_env =
     sample_env\<lparr>set_rejects :=
       (\<lambda>k. if k = ''ad_b2'' then Some (3, ''DEADLINE_EXCEEDED'') else None)\<rparr>"

text \<open>The two environments as environments of the service, and two requests.\<close>

definition sample_client :: firestore_env where
  "sample_client = Firestore_env sample_env"

definition failing_write_client :: firestore_env where
  "failing_write_client = Firestore_env failing_write_env"

definition plain_request :: "string option \<Rightarrow> request" where
  "plain_request h = \<lparr>authorization_header = h, json_body = BodyParsed\<rparr>"

definition malformed_request :: "string option \<Rightarrow> request" where
  "malformed_request h = \<lparr>authorization_header = h, json_body = BodyRejected EntityParseFailed\<rparr>"

text \<open>
  An API with three pages for the cutoff 100: the first has two new ads, the second one
  ad older than the cutoff and a token for a third page.
\<close>

definition sample_api :: ads_api where
  "sample_api pageId since pageToken attempt =
     (if pageToken = None then
        Inr \<lparr>page_ads =
               [\<lparr>adId = ''a1'', adBrandId = ''b1'', createdTime = 105, adData = ''x''\<rparr>,
                \<lparr>adId = ''a2'', adBrandId = ''b1'', createdTime = 103, adData = ''y''\<rparr>],
             nextPageToken = Some ''p2''\<rparr>
      else if pageToken = Some ''p2'' then
        Inr \<lparr>page_ads = [\<lparr>adId = ''a3'', adBrandId = ''b1'', createdTime = 99, adData = ''z''\<rparr>],
             nextPageToken = Some ''p3''\<rparr>
      else
        Inr \<lparr>page_ads = [\<lparr>adId = ''a4'', adBrandId = ''b1'', createdTime = 50, adData = ''w''\<rparr>],
             nextPageToken = None\<rparr>)"

section \<open>Auxiliary notions\<close>

text \<open>
  A field of a document that may be missing, and the fields a merge starts from: those
  of the document, none when there is no document.
\<close>

definition field_of :: "doc option \<Rightarrow> string \<Rightarrow> fs_value option" where
  "field_of d f = (case d of None \<Rightarrow> None | Some d' \<Rightarrow> d' f)"

definition base :: "doc option \<Rightarrow> doc" where
  "base d = (case d of None \<Rightarrow> Map.empty | Some d' \<Rightarrow> d')"

section \<open>Evaluation on concrete inputs\<close>

lemmas eval_defs = run_response_def run_calls_def run_store_def run_def bearer_match_def
  line_terminator_def verifyIdToken_def ops_def promise_all_def catch_block_def Let_def
  ad_doc_id_def adPayload_def name_or_null_def set_merge_def ad_field_def

section \<open>Token verification and the paths of the handler\<close>

text \<open>The header check, read as the pattern it implements.\<close>

lemma bearer_match_Some_iff:
  "bearer_match h = Some t \<longleftrightarrow> h = ''Bearer '' @ t \<and> t \<noteq> [] \<and> \<not> list_ex line_terminator t"
proof
  assume m: "bearer_match h = Some t"
  then have "take 7 h = ''Bearer ''" and t: "t = drop 7 h"
    and "t \<noteq> []" and "\<not> list_ex line_terminator t"
    by (auto simp: bearer_match_def split: if_splits)
  moreover have "h = take 7 h @ drop 7 h" by simp
  ultimately show "h = ''Bearer '' @ t \<and> t \<noteq> [] \<and> \<not> list_ex line_terminator t"
    by metis
next
  assume "h = ''Bearer '' @ t \<and> t \<noteq> [] \<and> \<not> list_ex line_terminator t"
  then show "bearer_match h = Some t"
    by (simp add: bearer_match_def)
qed

lemma bearer_match_nonempty: "bearer_match h = Some t \<Longrightarrow> t \<noteq> []"
  by (simp add: bearer_match_Some_iff)

lemma try_audiences_None:
  "snd (try_audiences e token auds) = None \<longleftrightarrow> (\<forall>aud\<in>set auds. oauth_verify e token aud = None)"
  by (induction auds) (auto split: option.splits prod.splits)

lemma verifyIdToken_result:
  "token \<noteq> [] \<Longrightarrow>
   snd (verifyIdToken e token) =
     (case snd (try_audiences e token (EXPECT_AUDIENCES e)) of
        Some p \<Rightarrow> Inr p | None \<Rightarrow> Inl ''invalid-token'')"
  by (simp add: verifyIdToken_def split: prod.splits option.splits)

lemma verifyIdToken_messages:
  "token \<noteq> [] \<Longrightarrow> snd (verifyIdToken e token) = Inl m \<Longrightarrow> m = ''invalid-token''"
  by (auto simp: verifyIdToken_def split: prod.splits option.splits)

lemma run_verify_fails:
  "bearer_match h = Some t \<Longrightarrow> snd (verifyIdToken e t) = Inl m \<Longrightarrow>
   run e (Some h) s = (catch_block m, fst (verifyIdToken e t), s)"
  by (cases "verifyIdToken e t") (simp add: run_def Let_def)

lemma run_get_fails:
  "bearer_match h = Some t \<Longrightarrow> snd (verifyIdToken e t) = Inr p \<Longrightarrow> brands_get_error e = Some m \<Longrightarrow>
   run e (Some h) s = (catch_block m, fst (verifyIdToken e t) @ [BrandsGet], s)"
  by (cases "verifyIdToken e t") (simp add: run_def Let_def)

lemma run_set_fails:
  "bearer_match h = Some t \<Longrightarrow> snd (verifyIdToken e t) = Inr p \<Longrightarrow> brands_get_error e = None \<Longrightarrow>
   promise_all e (ops e s) = Some m \<Longrightarrow>
   run e (Some h) s =
     (catch_block m,
      fst (verifyIdToken e t) @ [BrandsGet] @ map (\<lambda>(k, p). AdSet k p) (ops e s),
      s\<lparr>ads := apply_sets e (ops e s) (ads s)\<rparr>)"
  by (cases "verifyIdToken e t") (simp add: run_def Let_def)

lemma run_ok:
  "bearer_match h = Some t \<Longrightarrow> snd (verifyIdToken e t) = Inr p \<Longrightarrow> brands_get_error e = None \<Longrightarrow>
   promise_all e (ops e s) = None \<Longrightarrow>
   run e (Some h) s =
     (\<lparr>status = 200, body = [(''status'', JStr ''ok''), (''processed'', JNum (length (ops e s)))]\<rparr>,
      fst (verifyIdToken e t) @ [BrandsGet] @ map (\<lambda>(k, p). AdSet k p) (ops e s),
      s\<lparr>ads := apply_sets e (ops e s) (ads s)\<rparr>)"
  by (cases "verifyIdToken e t") (simp add: run_def Let_def)

section \<open>Merging writes into the collection\<close>

lemma apply_sets_other_key:
  "k \<notin> fst ` set ws \<Longrightarrow> apply_sets e ws m k = m k"
  by (induction ws arbitrary: m) (auto simp: set_merge_def)

lemma apply_sets_rejected:
  "set_rejects e k \<noteq> None \<Longrightarrow> apply_sets e ws m k = m k"
  by (induction ws arbitrary: m) (auto simp: set_merge_def)

lemma set_merge_field:
  "p f = None \<Longrightarrow> field_of (set_merge m k' p k) f = field_of (m k) f"
  by (auto simp: set_merge_def field_of_def map_add_def split: option.splits)

lemma apply_sets_other_field:
  "\<forall>w\<in>set ws. snd w f = None \<Longrightarrow> field_of (apply_sets e ws m k) f = field_of (m k) f"
proof (induction ws arbitrary: m)
  case Nil
  then show ?case by simp
next
  case (Cons w ws)
  obtain k' p where w: "w = (k', p)" by (cases w)
  from Cons.prems w have pf: "p f = None" and rest: "\<forall>w\<in>set ws. snd w f = None"
    by auto
  show ?case
    using Cons.IH [OF rest] pf by (simp add: w set_merge_field)
qed

lemma set_merge_base: "set_merge m k p k = Some (base (m k) ++ p)"
  by (simp add: set_merge_def base_def split: option.splits)

lemma set_merge_other: "k \<noteq> k' \<Longrightarrow> set_merge m k' p k = m k"
  by (simp add: set_merge_def)

lemma map_add_same_dom: "dom p = dom q \<Longrightarrow> (d ++ p) ++ q = d ++ q"
  by (rule ext) (auto simp: map_add_def split: option.splits)

lemma apply_sets_last:
  "\<forall>w\<in>set ws. dom (snd w) = D \<Longrightarrow>
   apply_sets e ws m k =
     (if set_rejects e k = None
      then (case map_of (rev ws) k of
              None \<Rightarrow> m k
            | Some p \<Rightarrow> Some (base (m k) ++ p))
      else m k)"
proof (induction ws arbitrary: m)
  case Nil
  then show ?case by simp
next
  case (Cons w ws)
  obtain k' p where w: "w = (k', p)" by (cases w)
  from Cons.prems w have dp: "dom p = D" and rest: "\<forall>w\<in>set ws. dom (snd w) = D"
    by auto
  have dom_later: "dom q = D" if "map_of (rev ws) k = Some q" for q
  proof -
    from that have "(k, q) \<in> set ws" by (auto dest: map_of_SomeD)
    with rest show ?thesis by force
  qed
  show ?case
  proof (cases "set_rejects e k = None")
    case False
    then show ?thesis by (auto simp: apply_sets_rejected)
  next
    case acc: True
    show ?thesis
    proof (cases "k' = k")
      case True
      with acc w have step: "apply_sets e (w # ws) m = apply_sets e ws (set_merge m k p)"
        by simp
      show ?thesis
      proof (cases "map_of (rev ws) k")
        case None
        with True acc w show ?thesis
          by (simp add: step Cons.IH [OF rest] set_merge_base map_add_def)
      next
        case (Some q)
        with dom_later have "dom q = D" by simp
        with dp have "(base (m k) ++ p) ++ q = base (m k) ++ q"
          by (simp add: map_add_same_dom)
        with Some True acc w show ?thesis
          by (simp add: step Cons.IH [OF rest] set_merge_base map_add_def base_def)
      qed
    next
      case False
      then have "apply_sets e (w # ws) m k = apply_sets e ws (if set_rejects e k' = None then set_merge m k' p else m) k"
        by (simp add: w)
      with False acc show ?thesis
        by (auto simp: w Cons.IH [OF rest] set_merge_other map_add_def split: option.splits)
    qed
  qed
qed

section \<open>\<open>Promise.all\<close> and the case analysis of the handler\<close>

lemma try_audiences_calls:
  "c \<in> set (fst (try_audiences e token auds)) \<Longrightarrow> \<exists>aud. c = VerifyIdToken token aud"
  by (induction auds arbitrary: c) (auto split: option.splits prod.splits)

lemma verifyIdToken_calls:
  "c \<in> set (fst (verifyIdToken e token)) \<Longrightarrow> \<exists>aud. c = VerifyIdToken token aud"
  using try_audiences_calls [of c e token "EXPECT_AUDIENCES e"]
  by (auto simp: verifyIdToken_def split: prod.splits option.splits if_splits)

lemma earliest_mem: "earliest r rs \<in> set (r # rs)"
  by (induction rs arbitrary: r) (auto split: if_splits)

lemma earliest_le: "fst (earliest r rs) \<le> fst r"
proof (induction rs arbitrary: r)
  case Nil
  show ?case by simp
next
  case (Cons x xs)
  show ?case using Cons [of "if fst x < fst r then x else r"] by (auto split: if_splits)
qed

lemma earliest_least: "x \<in> set (r # rs) \<Longrightarrow> fst (earliest r rs) \<le> fst x"
proof (induction rs arbitrary: r)
  case Nil
  then show ?case by simp
next
  case (Cons y ys)
  let ?r' = "if fst y < fst r then y else r"
  from Cons.prems consider "x = r" | "x = y" | "x \<in> set ys" by auto
  then show ?case
  proof cases
    case 1
    have "fst (earliest ?r' ys) \<le> fst ?r'" by (rule earliest_le)
    with 1 show ?thesis by (auto split: if_splits)
  next
    case 2
    have "fst (earliest ?r' ys) \<le> fst ?r'" by (rule earliest_le)
    with 2 show ?thesis by (auto split: if_splits)
  next
    case 3
    then have "x \<in> set (?r' # ys)" by simp
    from Cons.IH [OF this] show ?thesis by simp
  qed
qed

lemma rejections_mem:
  "r \<in> set (rejections e ws) \<longleftrightarrow> (\<exists>w\<in>set ws. set_rejects e (fst w) = Some r)"
proof (induction ws)
  case Nil
  show ?case by simp
next
  case (Cons w ws)
  obtain k p where w: "w = (k, p)" by (cases w)
  show ?case
    by (cases "set_rejects e k") (auto simp: w Cons.IH)
qed

lemma promise_all_None:
  "promise_all e ws = None \<longleftrightarrow> (\<forall>w\<in>set ws. set_rejects e (fst w) = None)"
proof
  assume "promise_all e ws = None"
  then have "set (rejections e ws) = {}"
    by (simp add: promise_all_def split: list.splits)
  then have "\<forall>r. r \<notin> set (rejections e ws)" by simp
  then show "\<forall>w\<in>set ws. set_rejects e (fst w) = None"
    unfolding rejections_mem by (metis not_Some_eq)
next
  assume none: "\<forall>w\<in>set ws. set_rejects e (fst w) = None"
  have "rejections e ws = []"
  proof (cases "rejections e ws")
    case Nil
    then show ?thesis .
  next
    case (Cons r rs)
    then have "r \<in> set (rejections e ws)" by simp
    with none show ?thesis unfolding rejections_mem by auto
  qed
  then show "promise_all e ws = None" by (simp add: promise_all_def)
qed

lemma promise_all_Some:
  assumes "promise_all e ws = Some m"
  shows "\<exists>k p t. (k, p) \<in> set ws \<and> set_rejects e k = Some (t, m)
           \<and> (\<forall>k' p' t' m'. (k', p') \<in> set ws \<and> set_rejects e k' = Some (t', m') \<longrightarrow> t \<le> t')"
proof -
  from assms obtain r rs where rs: "rejections e ws = r # rs" and m: "m = snd (earliest r rs)"
    by (auto simp: promise_all_def split: list.splits)
  let ?x = "earliest r rs"
  have "?x \<in> set (rejections e ws)" using earliest_mem [of r rs] rs by simp
  then obtain k p where kp: "(k, p) \<in> set ws" "set_rejects e k = Some ?x"
    by (auto simp: rejections_mem)
  have least: "fst ?x \<le> t'" if "(k', p') \<in> set ws" "set_rejects e k' = Some (t', m')" for k' p' t' m'
  proof -
    from that have "(t', m') \<in> set (r # rs)" unfolding rs [symmetric] rejections_mem by force
    from earliest_least [OF this] show ?thesis by simp
  qed
  from kp m have "set_rejects e k = Some (fst ?x, m)" by simp
  with kp(1) least show ?thesis by blast
qed

lemma catch_block_status: "status (catch_block m) \<noteq> 200"
  by (simp add: catch_block_def)

lemma catch_block_body: "body (catch_block m) = [(''error'', JStr m)]"
  by (simp add: catch_block_def)

lemma length_ops: "length (ops e s) = length (brands s)"
  by (simp add: ops_def)

lemma run_cases:
  obtains
    (missing) "bearer_match (case a of None \<Rightarrow> [] | Some h \<Rightarrow> h) = None"
      "run e a s = (\<lparr>status = 401, body = [(''error'', JStr ''missing-token'')]\<rparr>, [], s)"
  | (invalid) t where "bearer_match (case a of None \<Rightarrow> [] | Some h \<Rightarrow> h) = Some t"
      "snd (verifyIdToken e t) = Inl ''invalid-token''"
      "run e a s = (catch_block ''invalid-token'', fst (verifyIdToken e t), s)"
  | (read_fails) t p m where "bearer_match (case a of None \<Rightarrow> [] | Some h \<Rightarrow> h) = Some t"
      "snd (verifyIdToken e t) = Inr p" "brands_get_error e = Some m"
      "run e a s = (catch_block m, fst (verifyIdToken e t) @ [BrandsGet], s)"
  | (write_fails) t p m where "bearer_match (case a of None \<Rightarrow> [] | Some h \<Rightarrow> h) = Some t"
      "snd (verifyIdToken e t) = Inr p" "brands_get_error e = None"
      "promise_all e (ops e s) = Some m"
      "run e a s =
        (catch_block m,
         fst (verifyIdToken e t) @ [BrandsGet] @ map (\<lambda>(k, p). AdSet k p) (ops e s),
         s\<lparr>ads := apply_sets e (ops e s) (ads s)\<rparr>)"
  | (ok) t p where "bearer_match (case a of None \<Rightarrow> [] | Some h \<Rightarrow> h) = Some t"
      "snd (verifyIdToken e t) = Inr p" "brands_get_error e = None"
      "promise_all e (ops e s) = None"
      "run e a s =
        (\<lparr>status = 200, body = [(''status'', JStr ''ok''), (''processed'', JNum (length (brands s)))]\<rparr>,
         fst (verifyIdToken e t) @ [BrandsGet] @ map (\<lambda>(k, p). AdSet k p) (ops e s),
         s\<lparr>ads := apply_sets e (ops e s) (ads s)\<rparr>)"
proof -
  let ?h = "case a of None \<Rightarrow> [] | Some h \<Rightarrow> h"
  show thesis
  proof (cases "bearer_match ?h")
    case None
    then have "run e a s = (\<lparr>status = 401, body = [(''error'', JStr ''missing-token'')]\<rparr>, [], s)"
      by (simp add: run_def)
    with None show thesis by (rule missing)
  next
    case (Some t)
    then have ne: "t \<noteq> []" by (rule bearer_match_nonempty)
    obtain cs r where v: "verifyIdToken e t = (cs, r)" by (cases "verifyIdToken e t")
    show thesis
    proof (cases r)
      case (Inl m)
      with v ne have m: "m = ''invalid-token''"
        using verifyIdToken_messages [of t e m] by simp
      from Some v Inl have "run e a s = (catch_block m, fst (verifyIdToken e t), s)"
        by (simp add: run_def)
      with Some v Inl m show thesis by (auto intro: invalid)
    next
      case (Inr p)
      show thesis
      proof (cases "brands_get_error e")
        case (Some m)
        with \<open>bearer_match ?h = Some t\<close> v Inr
        have "run e a s = (catch_block m, fst (verifyIdToken e t) @ [BrandsGet], s)"
          by (simp add: run_def)
        with \<open>bearer_match ?h = Some t\<close> v Inr Some show thesis by (auto intro: read_fails)
      next
        case None
        show thesis
        proof (cases "promise_all e (ops e s)")
          case (Some m)
          with \<open>bearer_match ?h = Some t\<close> v Inr None
          have "run e a s =
            (catch_block m,
             fst (verifyIdToken e t) @ [BrandsGet] @ map (\<lambda>(k, p). AdSet k p) (ops e s),
             s\<lparr>ads := apply_sets e (ops e s) (ads s)\<rparr>)"
            by (simp add: run_def Let_def)
          with \<open>bearer_match ?h = Some t\<close> v Inr None Some show thesis by (auto intro: write_fails)
        next
          case pa: None
          with \<open>bearer_match ?h = Some t\<close> v Inr None
          have "run e a s =
            (\<lparr>status = 200, body = [(''status'', JStr ''ok''), (''processed'', JNum (length (brands s)))]\<rparr>,
             fst (verifyIdToken e t) @ [BrandsGet] @ map (\<lambda>(k, p). AdSet k p) (ops e s),
             s\<lparr>ads := apply_sets e (ops e s) (ads s)\<rparr>)"
            by (simp add: run_def Let_def length_ops)
          with \<open>bearer_match ?h = Some t\<close> v Inr None pa show thesis by (auto intro: ok)
        qed
      qed
    qed
  qed
qed

section \<open>The claims\<close>

subsection \<open>C2: the watermark\<close>

lemma run_keeps_brands: "brands (run_store e a s) = brands s"
  by (cases rule: run_cases [of a e s]) (simp_all add: run_store_def)

text \<open>
  C2, as the code has it. No run writes a brand document: after every call of
  \<open>POST /run\<close>, successful or not, the collection \<open>brands\<close> is what it was, and so
  is the field \<open>lastFetchedAt\<close> of every brand. The watermark is never advanced.
\<close>

theorem watermark_never_written:
  "brands (run_store e a s) = brands s
   \<and> lastFetchedAt (run_store e a s) brandId = lastFetchedAt s brandId"
  by (simp add: run_keeps_brands lastFetchedAt_def)

text \<open>The statement of C2 on the sample data: the watermark of \<open>b1\<close> after a successful run.\<close>

theorem watermark_never_written_witness:
  "lastFetchedAt (run_store sample_env (Some ''Bearer tok'') sample_store) ''b1''
     = lastFetchedAt sample_store ''b1''
   \<and> lastFetchedAt sample_store ''b1'' = Some (Str ''2024-01-01T00:00:00.000Z'')"
  using watermark_never_written [of sample_env "Some ''Bearer tok''" sample_store "''b1''"]
  by (simp add: lastFetchedAt_def sample_store_def)

text \<open>
  C2 as the specification words it asks that the watermark be advanced to the run's start
  time when the brand's whole ad set went through. On the sample data the run succeeds
  (both writes are accepted) and the watermark of \<open>b1\<close> is still the old one, not the
  run's time.
\<close>

theorem watermark_not_advanced_counterexample:
  "status (run_response sample_env (Some ''Bearer tok'') sample_store) = 200
   \<and> lastFetchedAt sample_store ''b1'' = Some (Str ''2024-01-01T00:00:00.000Z'')
   \<and> lastFetchedAt (run_store sample_env (Some ''Bearer tok'') sample_store) ''b1''
       \<noteq> Some (Str (now sample_env))"
  by (simp add: eval_defs lastFetchedAt_def sample_env_def sample_store_def)

subsection \<open>C4: the auth gate\<close>

text \<open>
  C4. For a bearer token (a non-empty string): verification succeeds when the token
  validates for at least one configured audience; when it validates for none, and so in
  particular when no audience is configured, verification fails with \<open>invalid-token\<close>.
  That failure reaches the client as \<open>401 {"error":"invalid-token"}\<close>, before the
  brands are read and without any write.
\<close>

theorem verifyIdToken_fails_closed:
  assumes "token \<noteq> []"
  shows "((\<exists>aud\<in>set (EXPECT_AUDIENCES e). oauth_verify e token aud \<noteq> None)
            \<longrightarrow> (\<exists>p. snd (verifyIdToken e token) = Inr p))
    \<and> ((\<forall>aud\<in>set (EXPECT_AUDIENCES e). oauth_verify e token aud = None)
            \<longrightarrow> snd (verifyIdToken e token) = Inl ''invalid-token'')
    \<and> (EXPECT_AUDIENCES e = [] \<longrightarrow> snd (verifyIdToken e token) = Inl ''invalid-token'')
    \<and> (bearer_match h = Some token \<and> snd (verifyIdToken e token) = Inl ''invalid-token''
            \<longrightarrow> run_response e (Some h) s = \<lparr>status = 401, body = [(''error'', JStr ''invalid-token'')]\<rparr>
              \<and> BrandsGet \<notin> set (run_calls e (Some h) s)
              \<and> run_store e (Some h) s = s)"
proof -
  let ?r = "snd (try_audiences e token (EXPECT_AUDIENCES e))"
  have res: "snd (verifyIdToken e token) = (case ?r of Some p \<Rightarrow> Inr p | None \<Rightarrow> Inl ''invalid-token'')"
    using assms by (rule verifyIdToken_result)
  have none: "?r = None \<longleftrightarrow> (\<forall>aud\<in>set (EXPECT_AUDIENCES e). oauth_verify e token aud = None)"
    by (rule try_audiences_None)
  have a: "(\<exists>aud\<in>set (EXPECT_AUDIENCES e). oauth_verify e token aud \<noteq> None)
            \<longrightarrow> (\<exists>p. snd (verifyIdToken e token) = Inr p)"
    using res none by (cases ?r) auto
  have b: "(\<forall>aud\<in>set (EXPECT_AUDIENCES e). oauth_verify e token aud = None)
            \<longrightarrow> snd (verifyIdToken e token) = Inl ''invalid-token''"
    using res none by (cases ?r) auto
  have c: "EXPECT_AUDIENCES e = [] \<longrightarrow> snd (verifyIdToken e token) = Inl ''invalid-token''"
    using b by simp
  have d: "run_response e (Some h) s = \<lparr>status = 401, body = [(''error'', JStr ''invalid-token'')]\<rparr>
              \<and> BrandsGet \<notin> set (run_calls e (Some h) s)
              \<and> run_store e (Some h) s = s"
    if "bearer_match h = Some token" "snd (verifyIdToken e token) = Inl ''invalid-token''"
  proof -
    from run_verify_fails [OF that]
    have r: "run e (Some h) s = (catch_block ''invalid-token'', fst (verifyIdToken e token), s)" .
    have "BrandsGet \<notin> set (fst (verifyIdToken e token))"
      using verifyIdToken_calls [of BrandsGet e token] by auto
    with r show ?thesis
      by (simp add: run_response_def run_calls_def run_store_def catch_block_def)
  qed
  from a b c d show ?thesis by blast
qed

text \<open>
  C4 on the sample environment: the token \<open>tok\<close> is accepted by the second audience, a
  forged token by none, and no token is accepted once the list of audiences is empty.
\<close>

theorem verifyIdToken_fails_closed_witness:
  "snd (verifyIdToken sample_env ''tok'') = Inr ''invoker''
   \<and> snd (verifyIdToken sample_env ''forged'') = Inl ''invalid-token''
   \<and> snd (verifyIdToken (sample_env\<lparr>EXPECT_AUDIENCES := []\<rparr>) ''tok'') = Inl ''invalid-token''
   \<and> run_response sample_env (Some ''Bearer forged'') sample_store
       = \<lparr>status = 401, body = [(''error'', JStr ''invalid-token'')]\<rparr>
   \<and> run_calls sample_env (Some ''Bearer forged'') sample_store
       = [VerifyIdToken ''forged'' ''https://a.run.app'', VerifyIdToken ''forged'' ''https://b.run.app'']"
  using verifyIdToken_fails_closed [of "''forged''" sample_env "''Bearer forged''" sample_store]
    verifyIdToken_fails_closed [of "''tok''" sample_env "''Bearer tok''" sample_store]
    verifyIdToken_fails_closed [of "''tok''" "sample_env\<lparr>EXPECT_AUDIENCES := []\<rparr>" "''Bearer tok''" sample_store]
  by (simp add: eval_defs sample_env_def sample_store_def)

subsection \<open>The responses of the handler\<close>

lemma run_response_cases:
  "run_response e a s = \<lparr>status = 401, body = [(''error'', JStr ''missing-token'')]\<rparr>
   \<or> run_response e a s = catch_block ''invalid-token''
   \<or> (\<exists>m. brands_get_error e = Some m \<and> run_response e a s = catch_block m)
   \<or> (\<exists>m. promise_all e (ops e s) = Some m \<and> run_response e a s = catch_block m)
   \<or> run_response e a s =
        \<lparr>status = 200, body = [(''status'', JStr ''ok''), (''processed'', JNum (length (brands s)))]\<rparr>"
  by (cases rule: run_cases [of a e s]) (simp_all add: run_response_def)

subsection \<open>The route and its environments\<close>

lemma client_brands_get:
  "brands_get_error (env_of E) = Some m \<Longrightarrow> m \<noteq> ''no-token'' \<and> m \<noteq> ''invalid-token''"
  using env_of [of E] by (simp add: client_messages_def)

lemma client_set_rejects:
  "set_rejects (env_of E) k = Some (t, m) \<Longrightarrow> m \<noteq> ''no-token'' \<and> m \<noteq> ''invalid-token''"
  using env_of [of E] by (simp add: client_messages_def)

lemma client_promise_all:
  assumes "promise_all (env_of E) ws = Some m"
  shows "m \<noteq> ''no-token'' \<and> m \<noteq> ''invalid-token''"
proof -
  from promise_all_Some [OF assms] obtain k t where "set_rejects (env_of E) k = Some (t, m)"
    by blast
  then show ?thesis by (rule client_set_rejects)
qed

lemma catch_block_client:
  "m \<noteq> ''no-token'' \<and> m \<noteq> ''invalid-token'' \<Longrightarrow>
   catch_block m = \<lparr>status = 500, body = [(''error'', JStr m)]\<rparr>"
  by (simp add: catch_block_def)

lemma handler_response_shape:
  "run_response (env_of E) a s =
       \<lparr>status = 200, body = [(''status'', JStr ''ok''), (''processed'', JNum (length (brands s)))]\<rparr>
   \<or> run_response (env_of E) a s = \<lparr>status = 401, body = [(''error'', JStr ''missing-token'')]\<rparr>
   \<or> run_response (env_of E) a s = \<lparr>status = 401, body = [(''error'', JStr ''invalid-token'')]\<rparr>
   \<or> (\<exists>message. run_response (env_of E) a s = \<lparr>status = 500, body = [(''error'', JStr message)]\<rparr>)"
proof -
  consider "run_response (env_of E) a s = \<lparr>status = 401, body = [(''error'', JStr ''missing-token'')]\<rparr>"
    | "run_response (env_of E) a s = catch_block ''invalid-token''"
    | m where "brands_get_error (env_of E) = Some m" "run_response (env_of E) a s = catch_block m"
    | m where "promise_all (env_of E) (ops (env_of E) s) = Some m"
        "run_response (env_of E) a s = catch_block m"
    | "run_response (env_of E) a s =
        \<lparr>status = 200, body = [(''status'', JStr ''ok''), (''processed'', JNum (length (brands s)))]\<rparr>"
    using run_response_cases [of "env_of E" a s] by blast
  then show ?thesis
  proof cases
    case 1
    then show ?thesis by simp
  next
    case 2
    then show ?thesis by (simp add: catch_block_def)
  next
    case 3
    from client_brands_get [OF 3(1)] have "catch_block m = \<lparr>status = 500, body = [(''error'', JStr m)]\<rparr>"
      by (rule catch_block_client)
    with 3(2) show ?thesis by auto
  next
    case 4
    from client_promise_all [OF 4(1)] have "catch_block m = \<lparr>status = 500, body = [(''error'', JStr m)]\<rparr>"
      by (rule catch_block_client)
    with 4(2) show ?thesis by auto
  next
    case 5
    then show ?thesis by simp
  qed
qed

lemma post_run_parsed:
  "json_body req = BodyParsed \<Longrightarrow>
   post_run_response E req s = Json (run_response (env_of E) (authorization_header req) s)
   \<and> post_run_calls E req s = run_calls (env_of E) (authorization_header req) s
   \<and> post_run_store E req s = run_store (env_of E) (authorization_header req) s"
  by (simp add: post_run_response_def post_run_calls_def post_run_store_def post_run_def
      run_response_def run_calls_def run_store_def split: prod.splits)

lemma post_run_rejected:
  "json_body req = BodyRejected err \<Longrightarrow>
   post_run E req s = (ErrorPage (parser_status err), [], s)"
  by (simp add: post_run_def)

lemma parser_status_range: "parser_status err = 400 \<or> parser_status err = 413 \<or> parser_status err = 415"
  by (cases err) simp_all

lemma env_of_sample_client: "env_of sample_client = sample_env"
  by (simp add: sample_client_def Firestore_env_inverse client_messages_def sample_env_def)

lemma env_of_failing_write_client: "env_of failing_write_client = failing_write_env"
  by (simp add: failing_write_client_def Firestore_env_inverse client_messages_def
      failing_write_env_def sample_env_def)

lemmas post_eval_defs = post_run_response_def post_run_calls_def post_run_store_def post_run_def
  plain_request_def malformed_request_def env_of_sample_client env_of_failing_write_client

subsection \<open>C5: a request without header\<close>

text \<open>
  C5, as the code has it. A request to \<open>POST /run\<close> without \<open>Authorization\<close> header
  issues no external call (no token verification, no read of the brands, no write) and
  leaves the store as it was, whatever its body. When the body parser lets the request
  through, the response is \<open>401 {"error":"missing-token"}\<close>; when the parser rejects the
  body, the response is the parser's error (400, 413 or 415), given before the handler
  runs.
\<close>

theorem run_without_header:
  assumes "authorization_header req = None"
  shows "post_run_calls E req s = []
    \<and> post_run_store E req s = s
    \<and> (json_body req = BodyParsed
          \<longrightarrow> post_run_response E req s
                = Json \<lparr>status = 401, body = [(''error'', JStr ''missing-token'')]\<rparr>)
    \<and> (\<forall>err. json_body req = BodyRejected err
          \<longrightarrow> post_run_response E req s = ErrorPage (parser_status err))"
proof (cases "json_body req")
  case BodyParsed
  then show ?thesis
    using assms
    by (simp add: post_run_parsed run_response_def run_calls_def run_store_def run_def
        bearer_match_def)
next
  case (BodyRejected err)
  then show ?thesis
    by (simp add: post_run_rejected post_run_response_def post_run_calls_def post_run_store_def)
qed

text \<open>C5 at a request without header, once with a body that parses, once with one that does not.\<close>

theorem run_without_header_witness:
  "post_run_response sample_client (plain_request None) sample_store
     = Json \<lparr>status = 401, body = [(''error'', JStr ''missing-token'')]\<rparr>
   \<and> post_run_calls sample_client (plain_request None) sample_store = []
   \<and> post_run_store sample_client (plain_request None) sample_store = sample_store
   \<and> post_run_response sample_client (malformed_request None) sample_store = ErrorPage 400
   \<and> post_run_calls sample_client (malformed_request None) sample_store = []"
  using run_without_header [of "plain_request None" sample_client sample_store]
    run_without_header [of "malformed_request None" sample_client sample_store]
  by (simp add: plain_request_def malformed_request_def)

text \<open>
  C5 as worded gives every request without the header the answer 401. A request without
  the header whose JSON body does not parse is answered 400 by \<open>express.json()\<close>.
\<close>

theorem malformed_body_without_header_counterexample:
  "authorization_header (malformed_request None) = None
   \<and> post_run_response sample_client (malformed_request None) sample_store = ErrorPage 400
   \<and> http_status (post_run_response sample_client (malformed_request None) sample_store) \<noteq> 401"
  by (simp add: post_eval_defs)

subsection \<open>C8: a header that does not match\<close>

text \<open>
  C8, as the code has it. A request whose \<open>Authorization\<close> header does not match
  \<open>/^Bearer (.+)$/\<close> is handled exactly as the same request without the header: no
  token verification and no other external call is made, the store is untouched, and the
  response is \<open>401 {"error":"missing-token"}\<close> when the body parser lets the request
  through, the parser's error (400, 413 or 415) when it rejects the body.
\<close>

theorem run_header_mismatch:
  assumes "authorization_header req = Some h" and "bearer_match h = None"
  shows "post_run E req s = post_run E (req\<lparr>authorization_header := None\<rparr>) s
    \<and> post_run_calls E req s = []
    \<and> post_run_store E req s = s
    \<and> (json_body req = BodyParsed
          \<longrightarrow> post_run_response E req s
                = Json \<lparr>status = 401, body = [(''error'', JStr ''missing-token'')]\<rparr>)
    \<and> (\<forall>err. json_body req = BodyRejected err
          \<longrightarrow> post_run_response E req s = ErrorPage (parser_status err))"
proof (cases "json_body req")
  case BodyParsed
  have some: "run (env_of E) (Some h) s
      = (\<lparr>status = 401, body = [(''error'', JStr ''missing-token'')]\<rparr>, [], s)"
    using assms(2) by (simp add: run_def)
  have none: "run (env_of E) None s
      = (\<lparr>status = 401, body = [(''error'', JStr ''missing-token'')]\<rparr>, [], s)"
    by (simp add: run_def bearer_match_def)
  show ?thesis
    using BodyParsed assms(1)
    by (simp add: post_run_response_def post_run_calls_def post_run_store_def post_run_def
        some none)
next
  case (BodyRejected err)
  then show ?thesis
    by (simp add: post_run_response_def post_run_calls_def post_run_store_def post_run_def)
qed

text \<open>
  C8 at three headers (a lowercase scheme, the bare word \<open>Bearer\<close>, a Basic
  credential) with a body that parses, and at the first with a body that does not.
\<close>

theorem run_header_mismatch_witness:
  "post_run_response sample_client (plain_request (Some ''bearer tok'')) sample_store
     = Json \<lparr>status = 401, body = [(''error'', JStr ''missing-token'')]\<rparr>
   \<and> post_run_calls sample_client (plain_request (Some ''bearer tok'')) sample_store = []
   \<and> post_run_response sample_client (plain_request (Some ''Bearer'')) sample_store
     = Json \<lparr>status = 401, body = [(''error'', JStr ''missing-token'')]\<rparr>
   \<and> post_run_calls sample_client (plain_request (Some ''Bearer'')) sample_store = []
   \<and> post_run_response sample_client (plain_request (Some ''Basic dXNlcjpwYXNz'')) sample_store
     = Json \<lparr>status = 401, body = [(''error'', JStr ''missing-token'')]\<rparr>
   \<and> post_run_calls sample_client (plain_request (Some ''Basic dXNlcjpwYXNz'')) sample_store = []
   \<and> post_run_response sample_client (malformed_request (Some ''bearer tok'')) sample_store
     = ErrorPage 400"
  using run_header_mismatch [of "plain_request (Some ''bearer tok'')" "''bearer tok''" sample_client sample_store]
    run_header_mismatch [of "plain_request (Some ''Bearer'')" "''Bearer''" sample_client sample_store]
    run_header_mismatch [of "plain_request (Some ''Basic dXNlcjpwYXNz'')" "''Basic dXNlcjpwYXNz''" sample_client sample_store]
    run_header_mismatch [of "malformed_request (Some ''bearer tok'')" "''bearer tok''" sample_client sample_store]
  by (simp add: plain_request_def malformed_request_def bearer_match_def)

text \<open>
  C8 as worded gives every request with such a header the answer 401. With the header
  \<open>bearer tok\<close> and a JSON body that does not parse, the answer is the parser's 400.
\<close>

theorem malformed_body_mismatch_counterexample:
  "bearer_match ''bearer tok'' = None
   \<and> post_run_response sample_client (malformed_request (Some ''bearer tok'')) sample_store
       = ErrorPage 400
   \<and> http_status (post_run_response sample_client (malformed_request (Some ''bearer tok'')) sample_store)
       \<noteq> 401"
  by (simp add: post_eval_defs bearer_match_def)

subsection \<open>C9 and C6: the responses\<close>

text \<open>
  C9. The handler calls \<open>verifyIdToken\<close> only with the capture of the regular
  expression, which is not empty, so the branch \<open>no-token\<close> of \<open>verifyIdToken\<close> is
  never taken from the route, in any environment. Every response of \<open>POST /run\<close> with
  status 401 has the body \<open>{"error":"missing-token"}\<close> or \<open>{"error":"invalid-token"}\<close>;
  none has \<open>{"error":"no-token"}\<close>.
\<close>

theorem no_token_unreachable:
  "(\<forall>t. bearer_match (case authorization_header req of None \<Rightarrow> [] | Some h \<Rightarrow> h) = Some t
        \<longrightarrow> t \<noteq> [] \<and> snd (verifyIdToken e t) \<noteq> Inl ''no-token'')
   \<and> (http_status (post_run_response E req s) = 401
        \<longrightarrow> post_run_response E req s
              = Json \<lparr>status = 401, body = [(''error'', JStr ''missing-token'')]\<rparr>
          \<or> post_run_response E req s
              = Json \<lparr>status = 401, body = [(''error'', JStr ''invalid-token'')]\<rparr>)
   \<and> post_run_response E req s \<noteq> Json \<lparr>status = 401, body = [(''error'', JStr ''no-token'')]\<rparr>"
proof -
  have first: "t \<noteq> [] \<and> snd (verifyIdToken e t) \<noteq> Inl ''no-token''"
    if "bearer_match (case authorization_header req of None \<Rightarrow> [] | Some h \<Rightarrow> h) = Some t" for t
  proof -
    from that have ne: "t \<noteq> []" by (rule bearer_match_nonempty)
    then show ?thesis using verifyIdToken_messages [of t e "''no-token''"] by auto
  qed
  have shape: "post_run_response E req s
        = Json \<lparr>status = 401, body = [(''error'', JStr ''missing-token'')]\<rparr>
      \<or> post_run_response E req s
        = Json \<lparr>status = 401, body = [(''error'', JStr ''invalid-token'')]\<rparr>
      \<or> http_status (post_run_response E req s) \<noteq> 401"
  proof (cases "json_body req")
    case BodyParsed
    then have r: "post_run_response E req s = Json (run_response (env_of E) (authorization_header req) s)"
      by (simp add: post_run_parsed)
    from handler_response_shape [of E "authorization_header req" s] show ?thesis
      unfolding r by auto
  next
    case (BodyRejected err)
    then have "post_run_response E req s = ErrorPage (parser_status err)"
      by (simp add: post_run_rejected post_run_response_def)
    with parser_status_range [of err] show ?thesis by auto
  qed
  have second: "http_status (post_run_response E req s) = 401
        \<longrightarrow> post_run_response E req s
              = Json \<lparr>status = 401, body = [(''error'', JStr ''missing-token'')]\<rparr>
          \<or> post_run_response E req s
              = Json \<lparr>status = 401, body = [(''error'', JStr ''invalid-token'')]\<rparr>"
    using shape by blast
  have third: "post_run_response E req s \<noteq> Json \<lparr>status = 401, body = [(''error'', JStr ''no-token'')]\<rparr>"
    using shape by auto
  from first have first': "\<forall>t. bearer_match (case authorization_header req of None \<Rightarrow> [] | Some h \<Rightarrow> h) = Some t
        \<longrightarrow> t \<noteq> [] \<and> snd (verifyIdToken e t) \<noteq> Inl ''no-token''"
    by blast
  show ?thesis
    by (rule conjI [OF first' conjI [OF second third]])
qed

text \<open>C9 on the sample environment, for a forged token.\<close>

theorem no_token_unreachable_witness:
  "bearer_match ''Bearer forged'' = Some ''forged''
   \<and> snd (verifyIdToken sample_env ''forged'') \<noteq> Inl ''no-token''
   \<and> http_status (post_run_response sample_client (plain_request (Some ''Bearer forged'')) sample_store) = 401
   \<and> post_run_response sample_client (plain_request (Some ''Bearer forged'')) sample_store
       = Json \<lparr>status = 401, body = [(''error'', JStr ''invalid-token'')]\<rparr>"
  using no_token_unreachable [of "plain_request (Some ''Bearer forged'')" sample_env sample_client sample_store]
  by (simp add: post_eval_defs eval_defs sample_env_def sample_store_def)

text \<open>
  C6, as the code has it. A successful \<open>POST /run\<close> returns 200 with the body
  \<open>{status: "ok", processed: n}\<close>, \<open>n\<close> the number of brand documents. A failure
  returns \<open>401 {"error":"missing-token"}\<close>, \<open>401 {"error":"invalid-token"}\<close>,
  \<open>500 {"error": message}\<close>, or, when \<open>express.json()\<close> rejects the body, the parser's
  status (400, 413 or 415) with an error page that is not JSON.
\<close>

theorem run_response_shape:
  "(post_run_response E req s =
        Json \<lparr>status = 200,
              body = [(''status'', JStr ''ok''), (''processed'', JNum (length (brands s)))]\<rparr>
    \<or> post_run_response E req s = Json \<lparr>status = 401, body = [(''error'', JStr ''missing-token'')]\<rparr>
    \<or> post_run_response E req s = Json \<lparr>status = 401, body = [(''error'', JStr ''invalid-token'')]\<rparr>
    \<or> (\<exists>message. post_run_response E req s = Json \<lparr>status = 500, body = [(''error'', JStr message)]\<rparr>)
    \<or> (\<exists>err. json_body req = BodyRejected err
          \<and> post_run_response E req s = ErrorPage (parser_status err)))
   \<and> (http_status (post_run_response E req s) = 200
        \<longrightarrow> post_run_response E req s =
              Json \<lparr>status = 200,
                    body = [(''status'', JStr ''ok''), (''processed'', JNum (length (brands s)))]\<rparr>)"
proof (cases "json_body req")
  case BodyParsed
  then have r: "post_run_response E req s = Json (run_response (env_of E) (authorization_header req) s)"
    by (simp add: post_run_parsed)
  from handler_response_shape [of E "authorization_header req" s] show ?thesis
    unfolding r by auto
next
  case (BodyRejected err)
  then have "post_run_response E req s = ErrorPage (parser_status err)"
    by (simp add: post_run_rejected post_run_response_def)
  with BodyRejected parser_status_range [of err] show ?thesis by auto
qed

text \<open>
  C6 on the sample data: a successful run, a run in which one write fails, a request
  whose body does not parse.
\<close>

theorem run_response_shape_witness:
  "post_run_response sample_client (plain_request (Some ''Bearer tok'')) sample_store
     = Json \<lparr>status = 200, body = [(''status'', JStr ''ok''), (''processed'', JNum 2)]\<rparr>
   \<and> length (brands sample_store) = 2
   \<and> post_run_response failing_write_client (plain_request (Some ''Bearer tok'')) sample_store
     = Json \<lparr>status = 500, body = [(''error'', JStr ''DEADLINE_EXCEEDED'')]\<rparr>
   \<and> post_run_response sample_client (malformed_request (Some ''Bearer tok'')) sample_store
     = ErrorPage 400"
  using run_response_shape [of sample_client "plain_request (Some ''Bearer tok'')" sample_store]
    run_response_shape [of failing_write_client "plain_request (Some ''Bearer tok'')" sample_store]
    run_response_shape [of sample_client "malformed_request (Some ''Bearer tok'')" sample_store]
  by (simp add: post_eval_defs eval_defs sample_env_def sample_store_def failing_write_env_def)

text \<open>
  C6 as worded gives the successful response the counters \<open>brandsProcessed\<close>,
  \<open>brandsFailed\<close>, \<open>adsFetched\<close>, \<open>tasksCreated\<close>, \<open>tasksSkipped\<close> and an array
  \<open>logs\<close>, and every failure the status 401 or 500. The successful response on the
  sample data has the two fields \<open>status\<close> and \<open>processed\<close> and none of those; a
  request with a valid token and a JSON body that does not parse is answered 400.
\<close>

theorem run_body_counterexample:
  "post_run_response sample_client (plain_request (Some ''Bearer tok'')) sample_store
     = Json \<lparr>status = 200, body = [(''status'', JStr ''ok''), (''processed'', JNum 2)]\<rparr>
   \<and> map_of [(''status'', JStr ''ok''), (''processed'', JNum 2)] ''brandsProcessed'' = None
   \<and> map_of [(''status'', JStr ''ok''), (''processed'', JNum 2)] ''brandsFailed'' = None
   \<and> map_of [(''status'', JStr ''ok''), (''processed'', JNum 2)] ''adsFetched'' = None
   \<and> map_of [(''status'', JStr ''ok''), (''processed'', JNum 2)] ''tasksCreated'' = None
   \<and> map_of [(''status'', JStr ''ok''), (''processed'', JNum 2)] ''tasksSkipped'' = None
   \<and> map_of [(''status'', JStr ''ok''), (''processed'', JNum 2)] ''logs'' = None
   \<and> post_run_response sample_client (malformed_request (Some ''Bearer tok'')) sample_store
       = ErrorPage 400"
  by (simp add: post_eval_defs eval_defs sample_env_def sample_store_def)

subsection \<open>C3: running twice\<close>

lemma run_status_200:
  assumes "status (run_response e a s) = 200"
  shows "promise_all e (ops e s) = None"
    and "run_response e a s =
      \<lparr>status = 200, body = [(''status'', JStr ''ok''), (''processed'', JNum (length (brands s)))]\<rparr>"
    and "run_store e a s = s\<lparr>ads := apply_sets e (ops e s) (ads s)\<rparr>"
    and "\<exists>t. run_calls e a s =
           fst (verifyIdToken e t) @ [BrandsGet] @ map (\<lambda>(k, p). AdSet k p) (ops e s)"
  using assms
  by (cases rule: run_cases [of a e s];
      simp add: run_response_def run_store_def run_calls_def catch_block_status; blast?)+

lemma dom_apply_sets:
  "dom (apply_sets e ws m) = dom m \<union> {k \<in> fst ` set ws. set_rejects e k = None}"
proof (induction ws arbitrary: m)
  case Nil
  show ?case by simp
next
  case (Cons w ws)
  obtain k p where w: "w = (k, p)" by (cases w)
  have "dom (set_merge m k p) = insert k (dom m)"
    by (auto simp: set_merge_def)
  then show ?case
    by (cases "set_rejects e k = None") (auto simp: w Cons.IH)
qed

lemma map_fst_ops: "map fst (ops e s) = map (\<lambda>(brandId, brand). ad_doc_id brandId) (brands s)"
  by (simp add: ops_def case_prod_beta comp_def)

lemma ops_same: "now e' = now e \<Longrightarrow> brands s' = brands s \<Longrightarrow> ops e' s' = ops e s"
  by (simp add: ops_def)

lemma dom_adPayload:
  "dom (adPayload t b d) = {''brandId'', ''brandName'', ''fetchedAt'', ''source''}"
  by (auto simp: adPayload_def split: if_splits)

lemma ops_dom:
  "\<forall>w\<in>set (ops e s). dom (snd w) = {''brandId'', ''brandName'', ''fetchedAt'', ''source''}"
  by (simp add: ops_def dom_adPayload case_prod_beta)

lemma apply_sets_twice:
  assumes D: "\<forall>w\<in>set ws. dom (snd w) = D"
    and ok: "\<forall>w\<in>set ws. set_rejects e (fst w) = None" "\<forall>w\<in>set ws. set_rejects e' (fst w) = None"
  shows "apply_sets e' ws (apply_sets e ws m) = apply_sets e ws m"
proof (rule ext)
  fix k
  show "apply_sets e' ws (apply_sets e ws m) k = apply_sets e ws m k"
  proof (cases "map_of (rev ws) k")
    case None
    then show ?thesis
      by (simp add: apply_sets_last [OF D])
  next
    case (Some p)
    then have "(k, p) \<in> set ws" by (auto dest: map_of_SomeD)
    with ok have "set_rejects e k = None" "set_rejects e' k = None" by force+
    with Some show ?thesis
      by (simp add: apply_sets_last [OF D] base_def map_add_same_dom)
  qed
qed

text \<open>
  C3, as the code has it. The key of the document written for a brand is a function of
  the brand's id alone (\<open>ad_\<close> followed by the id). When a successful run is followed by
  a second successful run, the second writes the same keys, creates no document the first
  had not created, and answers as the first did (the same \<open>processed\<close> count; nothing is
  reported as skipped); when both runs have the same start time the store after the
  second is the store after the first.
\<close>

theorem rerun_idempotent:
  assumes first: "status (run_response e a s) = 200"
    and second: "status (run_response e' a' (run_store e a s)) = 200"
  shows "map fst (ops e s) = map (\<lambda>(brandId, brand). ad_doc_id brandId) (brands s)
    \<and> map fst (ops e' (run_store e a s)) = map fst (ops e s)
    \<and> dom (ads (run_store e' a' (run_store e a s))) = dom (ads (run_store e a s))
    \<and> run_response e' a' (run_store e a s) = run_response e a s
    \<and> (now e' = now e \<longrightarrow> run_store e' a' (run_store e a s) = run_store e a s)"
proof -
  let ?s1 = "run_store e a s"
  have b1: "brands ?s1 = brands s" by (rule run_keeps_brands)
  have keys: "map fst (ops e' ?s1) = map fst (ops e s)"
    by (simp add: map_fst_ops b1)
  note r1 = run_status_200 [OF first]
  note r2 = run_status_200 [OF second]
  have ok1: "\<forall>w\<in>set (ops e s). set_rejects e (fst w) = None"
    using r1(1) by (simp add: promise_all_None)
  have ok2: "\<forall>w\<in>set (ops e' ?s1). set_rejects e' (fst w) = None"
    using r2(1) by (simp add: promise_all_None)
  have fst_set: "fst ` set (ops e' ?s1) = fst ` set (ops e s)"
    using keys by (metis set_map)
  have d1: "dom (ads ?s1) = dom (ads s) \<union> fst ` set (ops e s)"
    using ok1 by (auto simp: r1(3) dom_apply_sets)
  have d2: "dom (ads (run_store e' a' ?s1)) = dom (ads ?s1) \<union> fst ` set (ops e' ?s1)"
    using ok2 by (auto simp: r2(3) dom_apply_sets)
  have doms: "dom (ads (run_store e' a' ?s1)) = dom (ads ?s1)"
    using d1 d2 fst_set by auto
  have resp: "run_response e' a' ?s1 = run_response e a s"
    by (simp add: r1(2) r2(2) b1)
  have same: "run_store e' a' ?s1 = ?s1" if "now e' = now e"
  proof -
    from that b1 have o: "ops e' ?s1 = ops e s" by (rule ops_same)
    have "apply_sets e' (ops e s) (apply_sets e (ops e s) (ads s)) = apply_sets e (ops e s) (ads s)"
      using ops_dom ok1 ok2 [unfolded o] by (rule apply_sets_twice)
    moreover have "ads ?s1 = apply_sets e (ops e s) (ads s)"
      by (simp add: r1(3))
    ultimately have "apply_sets e' (ops e' ?s1) (ads ?s1) = ads ?s1"
      by (simp only: o)
    then show ?thesis by (simp add: r2(3))
  qed
  from map_fst_ops keys doms resp same show ?thesis by blast
qed

text \<open>C3 on the sample data, the run repeated in the same environment.\<close>

theorem rerun_idempotent_witness:
  "status (run_response sample_env (Some ''Bearer tok'') sample_store) = 200
   \<and> map fst (ops sample_env sample_store) = [''ad_b1'', ''ad_b2'']
   \<and> run_response sample_env (Some ''Bearer tok'') (run_store sample_env (Some ''Bearer tok'') sample_store)
       = run_response sample_env (Some ''Bearer tok'') sample_store
   \<and> run_store sample_env (Some ''Bearer tok'') (run_store sample_env (Some ''Bearer tok'') sample_store)
       = run_store sample_env (Some ''Bearer tok'') sample_store"
proof -
  have first: "status (run_response sample_env (Some ''Bearer tok'') sample_store) = 200"
    by (simp add: eval_defs sample_env_def sample_store_def)
  have second: "status (run_response sample_env (Some ''Bearer tok'')
      (run_store sample_env (Some ''Bearer tok'') sample_store)) = 200"
    by (simp add: eval_defs sample_env_def sample_store_def)
  have keys: "map (\<lambda>(brandId, brand). ad_doc_id brandId) (brands sample_store) = [''ad_b1'', ''ad_b2'']"
    by (simp add: sample_store_def ad_doc_id_def)
  from rerun_idempotent [OF first second] first keys show ?thesis by simp
qed

text \<open>
  C3 as worded has the second dispatch of the same set report its items as skipped. The
  handler has no such report: run twice on the sample data, it answers the second time
  exactly as the first, \<open>processed: 2\<close>, with no field \<open>tasksSkipped\<close>. The keys written
  depend on the brand alone; there is no ad id.
\<close>

theorem rerun_reports_no_skipped_counterexample:
  "body (run_response sample_env (Some ''Bearer tok'') sample_store)
     = [(''status'', JStr ''ok''), (''processed'', JNum 2)]
   \<and> body (run_response sample_env (Some ''Bearer tok'')
        (run_store sample_env (Some ''Bearer tok'') sample_store))
     = [(''status'', JStr ''ok''), (''processed'', JNum 2)]
   \<and> map_of (body (run_response sample_env (Some ''Bearer tok'')
        (run_store sample_env (Some ''Bearer tok'') sample_store))) ''tasksSkipped'' = None
   \<and> map fst (ops sample_env sample_store) = [''ad_b1'', ''ad_b2'']"
  by (simp add: eval_defs sample_env_def sample_store_def)

subsection \<open>C1: a write that fails\<close>

lemma ad_doc_id_inj: "ad_doc_id b = ad_doc_id b' \<Longrightarrow> b = b'"
  by (simp add: ad_doc_id_def)

lemma ops_mem:
  "(k, q) \<in> set (ops e s) \<longleftrightarrow> (\<exists>b d. (b, d) \<in> set (brands s) \<and> k = ad_doc_id b \<and> q = adPayload (now e) b d)"
  by (auto simp: ops_def)

lemma map_AdSet_ops:
  "map (\<lambda>(k, p). AdSet k p) (ops e s) =
   map (\<lambda>(brandId, brand). AdSet (ad_doc_id brandId) (adPayload (now e) brandId brand)) (brands s)"
  by (simp add: ops_def case_prod_beta comp_def)

lemma written_doc:
  assumes b: "(b, d) \<in> set (brands s)" and ok: "set_rejects e (ad_doc_id b) = None"
  shows "\<exists>d'. (b, d') \<in> set (brands s)
     \<and> apply_sets e (ops e s) m (ad_doc_id b) = Some (base (m (ad_doc_id b)) ++ adPayload (now e) b d')"
proof -
  from b have "(ad_doc_id b, adPayload (now e) b d) \<in> set (rev (ops e s))"
    by (auto simp: ops_mem)
  then have "ad_doc_id b \<in> fst ` set (rev (ops e s))" by force
  then obtain q where q: "map_of (rev (ops e s)) (ad_doc_id b) = Some q"
    by (cases "map_of (rev (ops e s)) (ad_doc_id b)") (auto simp: map_of_eq_None_iff)
  then have "(ad_doc_id b, q) \<in> set (ops e s)" by (auto dest: map_of_SomeD)
  then obtain b' d' where bd: "(b', d') \<in> set (brands s)" "ad_doc_id b = ad_doc_id b'"
      "q = adPayload (now e) b' d'"
    by (auto simp: ops_mem)
  from bd(2) have "b' = b" by (auto dest: ad_doc_id_inj)
  with bd q ok show ?thesis
    by (auto simp: apply_sets_last [OF ops_dom])
qed

lemma written_fields:
  assumes "(b, d) \<in> set (brands s)" "set_rejects e (ad_doc_id b) = None"
  shows "field_of (apply_sets e (ops e s) m (ad_doc_id b)) ''brandId'' = Some (Str b)"
    and "field_of (apply_sets e (ops e s) m (ad_doc_id b)) ''fetchedAt'' = Some (Str (now e))"
    and "field_of (apply_sets e (ops e s) m (ad_doc_id b)) ''source'' = Some (Str ''ads-fetcher-service'')"
    and "\<exists>d'. (b, d') \<in> set (brands s)
          \<and> field_of (apply_sets e (ops e s) m (ad_doc_id b)) ''brandName'' = Some (name_or_null d')"
  using written_doc [OF assms, of m]
  by (auto simp: field_of_def adPayload_def map_add_def)

lemma ad_field_field_of: "ad_field s k f = field_of (ads s k) f"
  by (simp add: ad_field_def field_of_def)

text \<open>
  C1, as the code has it. There is no boundary around a brand. When the token is valid,
  the brands are read and the write of some brand's document fails, the write of every
  brand is still issued and every write that does not fail takes effect, but the call as
  a whole fails: its body is \<open>{"error": message}\<close> with the message of the write that
  failed first, its status is 500 (401 when that message is \<open>no-token\<close> or
  \<open>invalid-token\<close>), never 200, and it carries no \<open>brandsFailed\<close> count.
\<close>

theorem run_write_failure:
  assumes h: "bearer_match h = Some t" and v: "snd (verifyIdToken e t) = Inr p"
    and g: "brands_get_error e = None"
    and b: "(b, d) \<in> set (brands s)" and r: "set_rejects e (ad_doc_id b) = Some r"
  shows "(\<exists>b' d' t' m. (b', d') \<in> set (brands s) \<and> set_rejects e (ad_doc_id b') = Some (t', m)
            \<and> (\<forall>b'' d'' t'' m''. (b'', d'') \<in> set (brands s)
                  \<and> set_rejects e (ad_doc_id b'') = Some (t'', m'') \<longrightarrow> t' \<le> t'')
            \<and> body (run_response e (Some h) s) = [(''error'', JStr m)]
            \<and> status (run_response e (Some h) s)
                = (if m = ''no-token'' \<or> m = ''invalid-token'' then 401 else 500))
    \<and> status (run_response e (Some h) s) \<noteq> 200
    \<and> map_of (body (run_response e (Some h) s)) ''brandsFailed'' = None
    \<and> run_calls e (Some h) s =
         fst (verifyIdToken e t) @ [BrandsGet]
         @ map (\<lambda>(brandId, brand). AdSet (ad_doc_id brandId) (adPayload (now e) brandId brand)) (brands s)
    \<and> (\<forall>(b', d')\<in>set (brands s). set_rejects e (ad_doc_id b') = None
          \<longrightarrow> ad_field (run_store e (Some h) s) (ad_doc_id b') ''fetchedAt'' = Some (Str (now e)))"
proof -
  from b have mem: "(ad_doc_id b, adPayload (now e) b d) \<in> set (ops e s)"
    by (auto simp: ops_mem)
  have "promise_all e (ops e s) \<noteq> None"
  proof
    assume "promise_all e (ops e s) = None"
    then have "\<forall>w\<in>set (ops e s). set_rejects e (fst w) = None"
      by (simp add: promise_all_None)
    with mem have "set_rejects e (fst (ad_doc_id b, adPayload (now e) b d)) = None"
      by blast
    with r show False by simp
  qed
  then obtain m where m: "promise_all e (ops e s) = Some m" by auto
  note run = run_set_fails [OF h v g m]
  from promise_all_Some [OF m] obtain k q t' where
    kq: "(k, q) \<in> set (ops e s)" and rej: "set_rejects e k = Some (t', m)"
    and least: "\<And>k' p' t'' m''. (k', p') \<in> set (ops e s) \<Longrightarrow> set_rejects e k' = Some (t'', m'') \<Longrightarrow> t' \<le> t''"
    by blast
  from kq obtain b' d' where bd: "(b', d') \<in> set (brands s)" "k = ad_doc_id b'"
    by (auto simp: ops_mem)
  have least': "t' \<le> t''"
    if "(b'', d'') \<in> set (brands s)" "set_rejects e (ad_doc_id b'') = Some (t'', m'')"
    for b'' d'' t'' m''
  proof -
    from that(1) have "(ad_doc_id b'', adPayload (now e) b'' d'') \<in> set (ops e s)"
      by (auto simp: ops_mem)
    from least [OF this that(2)] show ?thesis .
  qed
  have resp: "run_response e (Some h) s = catch_block m"
    by (simp add: run_response_def run)
  have one: "\<exists>b' d' t' m. (b', d') \<in> set (brands s) \<and> set_rejects e (ad_doc_id b') = Some (t', m)
            \<and> (\<forall>b'' d'' t'' m''. (b'', d'') \<in> set (brands s)
                  \<and> set_rejects e (ad_doc_id b'') = Some (t'', m'') \<longrightarrow> t' \<le> t'')
            \<and> body (run_response e (Some h) s) = [(''error'', JStr m)]
            \<and> status (run_response e (Some h) s)
                = (if m = ''no-token'' \<or> m = ''invalid-token'' then 401 else 500)"
  proof (intro exI conjI)
    show "(b', d') \<in> set (brands s)" by (rule bd(1))
    show "set_rejects e (ad_doc_id b') = Some (t', m)" using rej bd(2) by simp
    show "\<forall>b'' d'' t'' m''. (b'', d'') \<in> set (brands s)
                  \<and> set_rejects e (ad_doc_id b'') = Some (t'', m'') \<longrightarrow> t' \<le> t''"
      using least' by blast
    show "body (run_response e (Some h) s) = [(''error'', JStr m)]"
      by (simp add: resp catch_block_def)
    show "status (run_response e (Some h) s)
                = (if m = ''no-token'' \<or> m = ''invalid-token'' then 401 else 500)"
      by (simp add: resp catch_block_def)
  qed
  have two: "status (run_response e (Some h) s) \<noteq> 200"
    by (simp add: resp catch_block_status)
  have three: "map_of (body (run_response e (Some h) s)) ''brandsFailed'' = None"
    by (simp add: resp catch_block_def)
  have four: "run_calls e (Some h) s =
         fst (verifyIdToken e t) @ [BrandsGet]
         @ map (\<lambda>(brandId, brand). AdSet (ad_doc_id brandId) (adPayload (now e) brandId brand)) (brands s)"
    by (simp add: run_calls_def run map_AdSet_ops)
  have five: "\<forall>(b', d')\<in>set (brands s). set_rejects e (ad_doc_id b') = None
          \<longrightarrow> ad_field (run_store e (Some h) s) (ad_doc_id b') ''fetchedAt'' = Some (Str (now e))"
    using written_fields(2) [of _ _ s e "ads s"]
    by (auto simp: run_store_def run ad_field_field_of)
  from one two three four five show ?thesis by blast
qed

text \<open>C1 on the sample data with the failing write for \<open>b2\<close>.\<close>

theorem run_write_failure_witness:
  "body (run_response failing_write_env (Some ''Bearer tok'') sample_store)
     = [(''error'', JStr ''DEADLINE_EXCEEDED'')]
   \<and> status (run_response failing_write_env (Some ''Bearer tok'') sample_store) = 500
   \<and> run_calls failing_write_env (Some ''Bearer tok'') sample_store =
       [VerifyIdToken ''tok'' ''https://a.run.app'', VerifyIdToken ''tok'' ''https://b.run.app'',
        BrandsGet,
        AdSet ''ad_b1'' (adPayload ''2024-02-01T00:00:00.000Z'' ''b1''
          [''name'' \<mapsto> Str ''Acme'', ''lastFetchedAt'' \<mapsto> Str ''2024-01-01T00:00:00.000Z'']),
        AdSet ''ad_b2'' (adPayload ''2024-02-01T00:00:00.000Z'' ''b2''
          [''page_id'' \<mapsto> Str ''444025482768886''])]
   \<and> ad_field (run_store failing_write_env (Some ''Bearer tok'') sample_store) ''ad_b1'' ''fetchedAt''
       = Some (Str ''2024-02-01T00:00:00.000Z'')"
proof -
  have h: "bearer_match ''Bearer tok'' = Some ''tok''"
    by (simp add: bearer_match_def line_terminator_def)
  have v: "snd (verifyIdToken failing_write_env ''tok'') = Inr ''invoker''"
    by (simp add: verifyIdToken_def failing_write_env_def sample_env_def)
  have g: "brands_get_error failing_write_env = None"
    by (simp add: failing_write_env_def sample_env_def)
  have b: "(''b2'', [''page_id'' \<mapsto> Str ''444025482768886'']) \<in> set (brands sample_store)"
    by (simp add: sample_store_def)
  have r: "set_rejects failing_write_env (ad_doc_id ''b2'') = Some (3, ''DEADLINE_EXCEEDED'')"
    by (simp add: failing_write_env_def sample_env_def ad_doc_id_def)
  have cs: "fst (verifyIdToken failing_write_env ''tok'')
    = [VerifyIdToken ''tok'' ''https://a.run.app'', VerifyIdToken ''tok'' ''https://b.run.app'']"
    by (simp add: verifyIdToken_def failing_write_env_def sample_env_def)
  have rs: "\<And>k. set_rejects failing_write_env k = (if k = ''ad_b2'' then Some (3, ''DEADLINE_EXCEEDED'') else None)"
    by (simp add: failing_write_env_def sample_env_def)
  have n: "now failing_write_env = ''2024-02-01T00:00:00.000Z''"
    by (simp add: failing_write_env_def sample_env_def)
  from run_write_failure [OF h v g b r] show ?thesis
    by (auto simp: cs rs n sample_store_def ad_doc_id_def split: if_splits)
qed

text \<open>
  C1 as worded says that the call never fails only because one brand failed. On the
  sample data the write for \<open>b1\<close> is accepted, the write for \<open>b2\<close> fails, and the
  call answers \<open>500\<close> with that write's message.
\<close>

theorem one_brand_fails_counterexample:
  "set_rejects failing_write_env ''ad_b1'' = None
   \<and> set_rejects failing_write_env ''ad_b2'' = Some (3, ''DEADLINE_EXCEEDED'')
   \<and> run_response failing_write_env (Some ''Bearer tok'') sample_store
       = \<lparr>status = 500, body = [(''error'', JStr ''DEADLINE_EXCEEDED'')]\<rparr>"
  by (simp add: eval_defs sample_env_def sample_store_def failing_write_env_def)

subsection \<open>C10: what a successful run writes\<close>

lemma payload_other_field:
  assumes "f \<notin> {''brandId'', ''brandName'', ''fetchedAt'', ''source''}"
  shows "\<forall>w\<in>set (ops e s). snd w f = None"
proof
  fix w assume "w \<in> set (ops e s)"
  with ops_dom have "dom (snd w) = {''brandId'', ''brandName'', ''fetchedAt'', ''source''}"
    by blast
  with assms show "snd w f = None" by blast
qed

text \<open>
  C10. On a successful \<open>POST /run\<close> the writes issued are exactly one per brand
  document, in order, each to the document \<open>ad_\<close> followed by the brand's id of the
  collection \<open>ads\<close>; that document then holds the brand's id, the run's time and the
  source (and the name of a brand of that id, or null). Merge semantics: in every
  document of \<open>ads\<close> the fields other than \<open>brandId\<close>, \<open>brandName\<close>,
  \<open>fetchedAt\<close> and \<open>source\<close> are as before; a document of \<open>ads\<close> whose key is not
  that of a brand is as before; no brand document is modified.
\<close>

theorem run_writes_frame:
  assumes ok: "status (run_response e a s) = 200"
  shows "(\<exists>cs. (\<forall>c\<in>set cs. \<exists>token aud. c = VerifyIdToken token aud)
            \<and> run_calls e a s =
                cs @ [BrandsGet]
                @ map (\<lambda>(brandId, brand). AdSet (ad_doc_id brandId) (adPayload (now e) brandId brand))
                    (brands s))
    \<and> (\<forall>(brandId, brand)\<in>set (brands s).
          ad_field (run_store e a s) (ad_doc_id brandId) ''brandId'' = Some (Str brandId)
          \<and> ad_field (run_store e a s) (ad_doc_id brandId) ''fetchedAt'' = Some (Str (now e))
          \<and> ad_field (run_store e a s) (ad_doc_id brandId) ''source'' = Some (Str ''ads-fetcher-service'')
          \<and> (\<exists>brand'. (brandId, brand') \<in> set (brands s)
                \<and> ad_field (run_store e a s) (ad_doc_id brandId) ''brandName''
                    = Some (name_or_null brand')))
    \<and> (\<forall>k f. f \<notin> {''brandId'', ''brandName'', ''fetchedAt'', ''source''}
          \<longrightarrow> ad_field (run_store e a s) k f = ad_field s k f)
    \<and> (\<forall>k. k \<notin> (\<lambda>(brandId, brand). ad_doc_id brandId) ` set (brands s)
          \<longrightarrow> ads (run_store e a s) k = ads s k)
    \<and> brands (run_store e a s) = brands s"
proof -
  note r = run_status_200 [OF ok]
  have accepted: "set_rejects e (ad_doc_id b) = None" if "(b, d) \<in> set (brands s)" for b d
  proof -
    from that have "(ad_doc_id b, adPayload (now e) b d) \<in> set (ops e s)"
      by (auto simp: ops_mem)
    with r(1) have "set_rejects e (fst (ad_doc_id b, adPayload (now e) b d)) = None"
      unfolding promise_all_None by blast
    then show ?thesis by simp
  qed
  from r(4) obtain t where calls: "run_calls e a s =
      fst (verifyIdToken e t) @ [BrandsGet] @ map (\<lambda>(k, p). AdSet k p) (ops e s)"
    by blast
  have vc: "\<forall>c\<in>set (fst (verifyIdToken e t)). \<exists>token aud. c = VerifyIdToken token aud"
  proof
    fix c assume "c \<in> set (fst (verifyIdToken e t))"
    from verifyIdToken_calls [OF this] show "\<exists>token aud. c = VerifyIdToken token aud"
      by blast
  qed
  have one: "\<exists>cs. (\<forall>c\<in>set cs. \<exists>token aud. c = VerifyIdToken token aud)
            \<and> run_calls e a s =
                cs @ [BrandsGet]
                @ map (\<lambda>(brandId, brand). AdSet (ad_doc_id brandId) (adPayload (now e) brandId brand))
                    (brands s)"
  proof (intro exI conjI)
    show "\<forall>c\<in>set (fst (verifyIdToken e t)). \<exists>token aud. c = VerifyIdToken token aud"
      by (rule vc)
    show "run_calls e a s =
        fst (verifyIdToken e t) @ [BrandsGet]
        @ map (\<lambda>(brandId, brand). AdSet (ad_doc_id brandId) (adPayload (now e) brandId brand))
            (brands s)"
      by (simp add: calls map_AdSet_ops)
  qed
  have two: "\<forall>(brandId, brand)\<in>set (brands s).
          ad_field (run_store e a s) (ad_doc_id brandId) ''brandId'' = Some (Str brandId)
          \<and> ad_field (run_store e a s) (ad_doc_id brandId) ''fetchedAt'' = Some (Str (now e))
          \<and> ad_field (run_store e a s) (ad_doc_id brandId) ''source'' = Some (Str ''ads-fetcher-service'')
          \<and> (\<exists>brand'. (brandId, brand') \<in> set (brands s)
                \<and> ad_field (run_store e a s) (ad_doc_id brandId) ''brandName''
                    = Some (name_or_null brand'))"
  proof (clarify, intro conjI)
    fix b d assume bd: "(b, d) \<in> set (brands s)"
    note w = written_fields [OF bd accepted [OF bd], of "ads s"]
    show "ad_field (run_store e a s) (ad_doc_id b) ''brandId'' = Some (Str b)"
      by (simp add: r(3) ad_field_field_of w(1))
    show "ad_field (run_store e a s) (ad_doc_id b) ''fetchedAt'' = Some (Str (now e))"
      by (simp add: r(3) ad_field_field_of w(2))
    show "ad_field (run_store e a s) (ad_doc_id b) ''source'' = Some (Str ''ads-fetcher-service'')"
      by (simp add: r(3) ad_field_field_of w(3))
    show "\<exists>brand'. (b, brand') \<in> set (brands s)
                \<and> ad_field (run_store e a s) (ad_doc_id b) ''brandName'' = Some (name_or_null brand')"
      using w(4) by (simp add: r(3) ad_field_field_of)
  qed
  have three: "\<forall>k f. f \<notin> {''brandId'', ''brandName'', ''fetchedAt'', ''source''}
          \<longrightarrow> ad_field (run_store e a s) k f = ad_field s k f"
    using apply_sets_other_field [OF payload_other_field]
    by (simp add: r(3) ad_field_field_of)
  have four: "\<forall>k. k \<notin> (\<lambda>(brandId, brand). ad_doc_id brandId) ` set (brands s)
          \<longrightarrow> ads (run_store e a s) k = ads s k"
  proof (intro allI impI)
    fix k assume "k \<notin> (\<lambda>(brandId, brand). ad_doc_id brandId) ` set (brands s)"
    then have "k \<notin> set (map fst (ops e s))"
      unfolding map_fst_ops by simp
    then have "k \<notin> fst ` set (ops e s)" by simp
    then show "ads (run_store e a s) k = ads s k"
      by (simp add: r(3) apply_sets_other_key)
  qed
  have five: "brands (run_store e a s) = brands s" by (rule run_keeps_brands)
  show ?thesis
    by (rule conjI [OF one conjI [OF two conjI [OF three conjI [OF four five]]]])
qed

text \<open>
  C10 on the sample data: the field \<open>views\<close> of \<open>ad_b1\<close> survives the run, its
  \<open>fetchedAt\<close> is replaced, \<open>ad_b2\<close> is created, nothing else appears.
\<close>

theorem run_writes_frame_witness:
  "status (run_response sample_env (Some ''Bearer tok'') sample_store) = 200
   \<and> ad_field (run_store sample_env (Some ''Bearer tok'') sample_store) ''ad_b1'' ''views'' = Some (Num 7)
   \<and> ad_field sample_store ''ad_b1'' ''views'' = Some (Num 7)
   \<and> ad_field (run_store sample_env (Some ''Bearer tok'') sample_store) ''ad_b1'' ''fetchedAt''
       = Some (Str ''2024-02-01T00:00:00.000Z'')
   \<and> ad_field (run_store sample_env (Some ''Bearer tok'') sample_store) ''ad_b2'' ''brandId''
       = Some (Str ''b2'')
   \<and> ads (run_store sample_env (Some ''Bearer tok'') sample_store) ''ad_b3'' = None
   \<and> brands (run_store sample_env (Some ''Bearer tok'') sample_store) = brands sample_store"
proof -
  have ok: "status (run_response sample_env (Some ''Bearer tok'') sample_store) = 200"
    by (simp add: eval_defs sample_env_def sample_store_def)
  have n: "now sample_env = ''2024-02-01T00:00:00.000Z''"
    by (simp add: sample_env_def)
  have v: "ad_field sample_store ''ad_b1'' ''views'' = Some (Num 7)"
    by (simp add: ad_field_def sample_store_def)
  have b3: "ads sample_store ''ad_b3'' = None"
    by (simp add: sample_store_def)
  have bs: "brands sample_store =
        [(''b1'', [''name'' \<mapsto> Str ''Acme'', ''lastFetchedAt'' \<mapsto> Str ''2024-01-01T00:00:00.000Z'']),
         (''b2'', [''page_id'' \<mapsto> Str ''444025482768886''])]"
    by (simp add: sample_store_def)
  note fr = run_writes_frame [OF ok]
  from fr [THEN conjunct2, THEN conjunct1] have
    f: "\<forall>(brandId, brand)\<in>set (brands sample_store).
          ad_field (run_store sample_env (Some ''Bearer tok'') sample_store) (ad_doc_id brandId) ''brandId'' = Some (Str brandId)
          \<and> ad_field (run_store sample_env (Some ''Bearer tok'') sample_store) (ad_doc_id brandId) ''fetchedAt'' = Some (Str (now sample_env))"
    by fast
  have o: "\<forall>k f. f \<notin> {''brandId'', ''brandName'', ''fetchedAt'', ''source''}
          \<longrightarrow> ad_field (run_store sample_env (Some ''Bearer tok'') sample_store) k f = ad_field sample_store k f"
    by (rule fr [THEN conjunct2, THEN conjunct2, THEN conjunct1])
  have k: "\<forall>k. k \<notin> (\<lambda>(brandId, brand). ad_doc_id brandId) ` set (brands sample_store)
          \<longrightarrow> ads (run_store sample_env (Some ''Bearer tok'') sample_store) k = ads sample_store k"
    by (rule fr [THEN conjunct2, THEN conjunct2, THEN conjunct2, THEN conjunct1])
  have b: "brands (run_store sample_env (Some ''Bearer tok'') sample_store) = brands sample_store"
    by (rule fr [THEN conjunct2, THEN conjunct2, THEN conjunct2, THEN conjunct2])
  from o have "ad_field (run_store sample_env (Some ''Bearer tok'') sample_store) ''ad_b1'' ''views''
      = ad_field sample_store ''ad_b1'' ''views''"
    by simp
  moreover from f have "ad_field (run_store sample_env (Some ''Bearer tok'') sample_store) ''ad_b1'' ''fetchedAt''
       = Some (Str ''2024-02-01T00:00:00.000Z'')"
    by (simp add: bs n ad_doc_id_def)
  moreover from f have "ad_field (run_store sample_env (Some ''Bearer tok'') sample_store) ''ad_b2'' ''brandId''
       = Some (Str ''b2'')"
    by (simp add: bs ad_doc_id_def)
  moreover from k have "ads (run_store sample_env (Some ''Bearer tok'') sample_store) ''ad_b3'' = ads sample_store ''ad_b3''"
    by (simp add: bs ad_doc_id_def)
  ultimately show ?thesis using ok v b3 b by simp
qed

subsection \<open>C7: the Pagination Fetcher\<close>

lemma filter_takeWhile_descending:
  "sorted_wrt (\<lambda>a b. f b \<le> f a) xs \<Longrightarrow>
   filter (\<lambda>a. (c::int) \<le> f a) xs = takeWhile (\<lambda>a. c \<le> f a) xs"
proof (induction xs)
  case Nil
  show ?case by simp
next
  case (Cons x xs)
  show ?case
  proof (cases "c \<le> f x")
    case True
    with Cons show ?thesis by simp
  next
    case False
    with Cons.prems have "\<forall>y\<in>set xs. \<not> c \<le> f y" by auto
    then have "filter (\<lambda>a. c \<le> f a) xs = []" by (simp add: filter_empty_conv)
    with False show ?thesis by simp
  qed
qed

lemma paginate_result:
  "paginate api retries pageId cutoff n tok gathered fetched = Inr (out, fs) \<Longrightarrow>
   \<exists>new. fs = fetched @ new
     \<and> out = gathered @ filter (\<lambda>a. cutoff \<le> createdTime a) (concat (map page_ads new))
     \<and> length new \<le> n
     \<and> (\<forall>p\<in>set (butlast new). \<not> list_ex (\<lambda>a. createdTime a < cutoff) (page_ads p))"
proof (induction n arbitrary: tok gathered fetched)
  case 0
  then show ?case by simp
next
  case (Suc n)
  from Suc.prems obtain p where
    p: "fetch_with_retry (api pageId cutoff tok) 0 retries = Inr p"
    by (cases "fetch_with_retry (api pageId cutoff tok) 0 retries") auto
  let ?g = "gathered @ filter (\<lambda>a. cutoff \<le> createdTime a) (page_ads p)"
  let ?f = "fetched @ [p]"
  show ?case
  proof (cases "list_ex (\<lambda>a. createdTime a < cutoff) (page_ads p) \<or> nextPageToken p = None")
    case True
    with Suc.prems p have "out = ?g" "fs = ?f"
      by (auto simp: Let_def split: if_splits option.splits)
    then show ?thesis
      by (intro exI [of _ "[p]"]) simp
  next
    case False
    then obtain t where t: "nextPageToken p = Some t" by auto
    with False Suc.prems p
    have "paginate api retries pageId cutoff n (Some t) ?g ?f = Inr (out, fs)"
      by (simp add: Let_def)
    from Suc.IH [OF this] obtain new where new: "fs = ?f @ new"
      "out = ?g @ filter (\<lambda>a. cutoff \<le> createdTime a) (concat (map page_ads new))"
      "length new \<le> n"
      "\<forall>p\<in>set (butlast new). \<not> list_ex (\<lambda>a. createdTime a < cutoff) (page_ads p)"
      by blast
    from False new(4)
    have "\<forall>q\<in>set (butlast (p # new)). \<not> list_ex (\<lambda>a. createdTime a < cutoff) (page_ads q)"
      by (auto split: if_splits)
    with new show ?thesis
      by (intro exI [of _ "p # new"]) simp
  qed
qed

text \<open>
  C7. When the Pagination Fetcher returns, its output holds no ad whose \<open>createdTime\<close>
  is below the cutoff, and no page is fetched after a page that holds such an ad (so the
  page with the first old ad is the last one fetched, whatever its next-page token), nor
  beyond the maximum page count. Under the precondition that the API serves the ads in
  descending order of \<open>createdTime\<close>, the output is the fetched ads up to the first one
  older than the cutoff.
\<close>

theorem fetchNewAds_cutoff:
  assumes "fetchNewAds_pages api retries max_pages pageId cutoff = Inr (gathered, fetched)"
  shows "fetchNewAds api retries max_pages pageId cutoff = Inr gathered
    \<and> (\<forall>a\<in>set gathered. \<not> createdTime a < cutoff)
    \<and> (\<forall>p\<in>set (butlast fetched). \<forall>a\<in>set (page_ads p). \<not> createdTime a < cutoff)
    \<and> length fetched \<le> max_pages
    \<and> (sorted_wrt (\<lambda>a b. createdTime b \<le> createdTime a) (concat (map page_ads fetched))
          \<longrightarrow> gathered = takeWhile (\<lambda>a. cutoff \<le> createdTime a) (concat (map page_ads fetched)))"
proof -
  from assms have "paginate api retries pageId cutoff max_pages None [] [] = Inr (gathered, fetched)"
    by (simp add: fetchNewAds_pages_def)
  from paginate_result [OF this] have
    g: "gathered = filter (\<lambda>a. cutoff \<le> createdTime a) (concat (map page_ads fetched))"
    and l: "length fetched \<le> max_pages"
    and h: "\<forall>p\<in>set (butlast fetched). \<not> list_ex (\<lambda>a. createdTime a < cutoff) (page_ads p)"
    by auto
  have one: "fetchNewAds api retries max_pages pageId cutoff = Inr gathered"
    using assms by (simp add: fetchNewAds_def)
  have two: "\<forall>a\<in>set gathered. \<not> createdTime a < cutoff"
    unfolding g by auto
  have three: "\<forall>p\<in>set (butlast fetched). \<forall>a\<in>set (page_ads p). \<not> createdTime a < cutoff"
    using h by (auto simp: list_ex_iff)
  have five: "sorted_wrt (\<lambda>a b. createdTime b \<le> createdTime a) (concat (map page_ads fetched))
          \<longrightarrow> gathered = takeWhile (\<lambda>a. cutoff \<le> createdTime a) (concat (map page_ads fetched))"
    unfolding g by (auto dest: filter_takeWhile_descending)
  show ?thesis
    by (rule conjI [OF one conjI [OF two conjI [OF three conjI [OF l five]]]])
qed

lemma sample_pages:
  "fetchNewAds_pages sample_api 2 50 ''444025482768886'' 100 =
    Inr ([\<lparr>adId = ''a1'', adBrandId = ''b1'', createdTime = 105, adData = ''x''\<rparr>,
          \<lparr>adId = ''a2'', adBrandId = ''b1'', createdTime = 103, adData = ''y''\<rparr>],
         [\<lparr>page_ads =
               [\<lparr>adId = ''a1'', adBrandId = ''b1'', createdTime = 105, adData = ''x''\<rparr>,
                \<lparr>adId = ''a2'', adBrandId = ''b1'', createdTime = 103, adData = ''y''\<rparr>],
             nextPageToken = Some ''p2''\<rparr>,
          \<lparr>page_ads = [\<lparr>adId = ''a3'', adBrandId = ''b1'', createdTime = 99, adData = ''z''\<rparr>],
             nextPageToken = Some ''p3''\<rparr>])"
  by (simp add: fetchNewAds_pages_def sample_api_def eval_nat_numeral)

text \<open>
  C7 on the sample API with cutoff 100: two ads are returned, and the second page, which
  holds the old ad, is the last one fetched although it names a third page.
\<close>

theorem fetchNewAds_cutoff_witness:
  "fetchNewAds sample_api 2 50 ''444025482768886'' 100 =
    Inr [\<lparr>adId = ''a1'', adBrandId = ''b1'', createdTime = 105, adData = ''x''\<rparr>,
         \<lparr>adId = ''a2'', adBrandId = ''b1'', createdTime = 103, adData = ''y''\<rparr>]
   \<and> (case fetchNewAds_pages sample_api 2 50 ''444025482768886'' 100 of
         Inl err \<Rightarrow> [] | Inr (gathered, fetched) \<Rightarrow> map nextPageToken fetched)
       = [Some ''p2'', Some ''p3'']"
  using fetchNewAds_cutoff [OF sample_pages] by (simp add: sample_pages)

end
